theory Spec2Isabelle
  imports Main
begin

section \<open>The VotingRoom contract: data model\<close>

text \<open>
  The contract is the Solidity source \<^verbatim>\<open>contract VotingRoom\<close> (pragma \<^verbatim>\<open>^0.8.24\<close>)
  carried in \<^verbatim>\<open>src/Frontend/services/gaslessTransactions.ts\<close>.

  \<^item> \<^verbatim>\<open>uint256\<close> values are natural numbers; Solidity 0.8 arithmetic is checked, so
    every \<^verbatim>\<open>x++\<close> is written as a test against \<open>MAX_UINT256\<close> that aborts with
    \<open>Panic\<close>, and the stored value never wraps.
  \<^item> A Solidity \<^verbatim>\<open>mapping\<close> is a total function: an absent key reads as the zero
    value of its type (\<open>emptyRoom\<close>, \<open>emptyCandidate\<close>, \<open>0\<close>, \<open>False\<close>).
  \<^item> \<^verbatim>\<open>address\<close>, \<^verbatim>\<open>bytes32\<close> and the FHE handle types \<^verbatim>\<open>euint32\<close>,
    \<^verbatim>\<open>externalEuint32\<close> (both are \<^verbatim>\<open>bytes32\<close> handles) are natural numbers.
  \<^item> Every \<^verbatim>\<open>require\<close> is a branch returning \<open>Inl\<close> of the error named after its
    message; a transaction that returns \<open>Inl\<close> reverts, so the storage stays as it was
    (\<open>apply_tx\<close> below).
  \<^item> The library calls \<^verbatim>\<open>keccak256\<close>, \<^verbatim>\<open>FHE.asEuint32\<close>, \<^verbatim>\<open>FHE.fromExternal\<close>,
    \<^verbatim>\<open>FHE.add\<close> are not code of the repository: they are the fields of the parameter
    \<open>env\<close>. \<^verbatim>\<open>FHE.fromExternal\<close> reverts on an invalid proof: \<open>None\<close>.
    \<^verbatim>\<open>FHE.allow\<close> and \<^verbatim>\<open>FHE.allowThis\<close> write the access-control list \<open>acl\<close>.
\<close>

type_synonym address = nat
type_synonym bytes32 = nat
type_synonym bytes = string
type_synonym euint32 = nat
type_synonym externalEuint32 = nat

definition MAX_UINT256 :: nat where
  "MAX_UINT256 = 2 ^ 256 - 1"

record Candidate =
  name :: string
  description :: string
  imageUrl :: string
  votes :: euint32
  exists :: bool

record Room =
  code :: string
  title :: string
  description :: string
  creator :: address
  maxParticipants :: nat
  participantCount :: nat
  endTime :: nat
  hasPassword :: bool
  passwordHash :: bytes32
  isActive :: bool
  isClosed :: bool
  candidateCount :: nat

datatype event =
    RoomCreated string address string
  | VoteCast string address
  | RoomJoined string address
  | RoomClosed string
  | RoomEnded string
  | ResultsPublished string

record VotingRoom =
  rooms :: "string \<Rightarrow> Room"
  roomCandidates :: "string \<Rightarrow> nat \<Rightarrow> Candidate"
  hasVoted :: "string \<Rightarrow> address \<Rightarrow> bool"
  isParticipant :: "string \<Rightarrow> address \<Rightarrow> bool"
  totalVotes :: "string \<Rightarrow> nat"
  candidateVotes :: "string \<Rightarrow> nat \<Rightarrow> nat"
  clearResults :: "string \<Rightarrow> nat \<Rightarrow> nat"
  resultsPublished :: "string \<Rightarrow> bool"
  roomCodes :: "string list"
  roomCodeIndex :: "string \<Rightarrow> nat"
  acl :: "euint32 \<Rightarrow> address \<Rightarrow> bool"
  events :: "event list"

record env =
  this :: address
  keccak256 :: "string \<Rightarrow> bytes32"
  FHE_asEuint32 :: "nat \<Rightarrow> euint32"
  FHE_fromExternal :: "externalEuint32 \<Rightarrow> bytes \<Rightarrow> address \<Rightarrow> euint32 option"
  FHE_add :: "euint32 \<Rightarrow> euint32 \<Rightarrow> euint32"

text \<open>One constructor per \<^verbatim>\<open>require\<close> message of the contract, in the order of the source.\<close>

datatype error =
    RoomDoesNotExist              \<comment> \<open>"Room does not exist"\<close>
  | RoomIsNotActive               \<comment> \<open>"Room is not active"\<close>
  | RoomHasEnded                  \<comment> \<open>"Room has ended"\<close>
  | RoomIsClosed                  \<comment> \<open>"Room is closed for new participants"\<close>
  | AlreadyVoted                  \<comment> \<open>"Already voted in this room"\<close>
  | NotAParticipant               \<comment> \<open>"Not a participant in this room"\<close>
  | RoomCodeAlreadyExists         \<comment> \<open>"Room code already exists"\<close>
  | EndTimeMustBeInFuture         \<comment> \<open>"End time must be in the future"\<close>
  | MaxParticipantsMustBePositive \<comment> \<open>"Max participants must be > 0"\<close>
  | ArraysLengthMismatch          \<comment> \<open>"Arrays length mismatch"\<close>
  | AtLeast2CandidatesRequired    \<comment> \<open>"At least 2 candidates required"\<close>
  | OnlyCreatorCanAddCandidates   \<comment> \<open>"Only creator can add candidates"\<close>
  | AtLeastOneCandidateRequired   \<comment> \<open>"At least one candidate required"\<close>
  | AlreadyAParticipant           \<comment> \<open>"Already a participant"\<close>
  | RoomIsFull                    \<comment> \<open>"Room is full"\<close>
  | InvalidPassword               \<comment> \<open>"Invalid password"\<close>
  | InvalidCandidate              \<comment> \<open>"Invalid candidate"\<close>
  | CandidateDoesNotExist         \<comment> \<open>"Candidate does not exist"\<close>
  | OnlyCreatorCanEndRoom         \<comment> \<open>"Only creator can end room"\<close>
  | RoomAlreadyEnded              \<comment> \<open>"Room already ended"\<close>
  | RoomHasNotEndedYet            \<comment> \<open>"Room has not ended yet"\<close>
  | OnlyCreatorCanPublishResults  \<comment> \<open>"Only creator can publish results"\<close>
  | RoomMustBeEnded               \<comment> \<open>"Room must be ended to publish results"\<close>
  | InvalidCandidateVotesLength   \<comment> \<open>"Invalid candidate votes length"\<close>
  | ResultsNotPublishedYet        \<comment> \<open>"Results not published yet"\<close>
  | InvalidInputProof             \<comment> \<open>revert inside \<^verbatim>\<open>FHE.fromExternal\<close>\<close>
  | Panic                         \<comment> \<open>checked-arithmetic overflow, \<^verbatim>\<open>Panic(0x11)\<close>\<close>

definition emptyCandidate :: Candidate where
  "emptyCandidate =
     \<lparr>name = [], Candidate.description = [], imageUrl = [], votes = 0, exists = False\<rparr>"

definition emptyRoom :: Room where
  "emptyRoom =
     \<lparr>code = [], title = [], description = [], creator = 0, maxParticipants = 0,
      participantCount = 0, endTime = 0, hasPassword = False, passwordHash = 0,
      isActive = False, isClosed = False, candidateCount = 0\<rparr>"

text \<open>The storage of a freshly deployed contract.\<close>

definition deployed :: VotingRoom where
  "deployed =
     \<lparr>rooms = (\<lambda>_. emptyRoom), roomCandidates = (\<lambda>_ _. emptyCandidate),
      hasVoted = (\<lambda>_ _. False), isParticipant = (\<lambda>_ _. False),
      totalVotes = (\<lambda>_. 0), candidateVotes = (\<lambda>_ _. 0), clearResults = (\<lambda>_ _. 0),
      resultsPublished = (\<lambda>_. False), roomCodes = [], roomCodeIndex = (\<lambda>_. 0),
      acl = (\<lambda>_ _. False), events = []\<rparr>"

section \<open>Requirements and modifiers\<close>

text \<open>\<^verbatim>\<open>require(c, msg); rest\<close> and a modifier around a body.\<close>

definition require :: "bool \<Rightarrow> error \<Rightarrow> (error + 'a) \<Rightarrow> error + 'a" where
  "require c e rest = (if c then rest else Inl e)"

definition modifier :: "error option \<Rightarrow> (error + 'a) \<Rightarrow> error + 'a" where
  "modifier m body = (case m of Some e \<Rightarrow> Inl e | None \<Rightarrow> body)"

text \<open>\<^verbatim>\<open>if (c) { require(d, msg); } rest\<close>: the requirement is made only when \<open>c\<close> holds.\<close>

definition require_if :: "bool \<Rightarrow> bool \<Rightarrow> error \<Rightarrow> (error + 'a) \<Rightarrow> error + 'a" where
  "require_if c d e rest = (if c then require d e rest else rest)"

definition roomExists :: "VotingRoom \<Rightarrow> string \<Rightarrow> error option" where
  "roomExists s roomCode =
     (if length (code (rooms s roomCode)) > 0 then None else Some RoomDoesNotExist)"

definition roomActive :: "VotingRoom \<Rightarrow> nat \<Rightarrow> string \<Rightarrow> error option" where
  "roomActive s now roomCode =
     (if \<not> isActive (rooms s roomCode) then Some RoomIsNotActive
      else if \<not> endTime (rooms s roomCode) > now then Some RoomHasEnded
      else if \<not> \<not> isClosed (rooms s roomCode) then Some RoomIsClosed
      else None)"

definition hasNotVoted :: "VotingRoom \<Rightarrow> address \<Rightarrow> string \<Rightarrow> error option" where
  "hasNotVoted s sender roomCode =
     (if \<not> hasVoted s roomCode sender then None else Some AlreadyVoted)"

definition isRoomParticipant :: "VotingRoom \<Rightarrow> address \<Rightarrow> string \<Rightarrow> error option" where
  "isRoomParticipant s sender roomCode =
     (if isParticipant s roomCode sender then None else Some NotAParticipant)"

section \<open>Storage writes shared by the operations\<close>

definition emit :: "event \<Rightarrow> VotingRoom \<Rightarrow> VotingRoom" where
  "emit e s = s\<lparr>events := events s @ [e]\<rparr>"

definition FHE_allow :: "euint32 \<Rightarrow> address \<Rightarrow> VotingRoom \<Rightarrow> VotingRoom" where
  "FHE_allow h a s = s\<lparr>acl := (acl s)(h := (acl s h)(a := True))\<rparr>"

definition FHE_allowThis :: "env \<Rightarrow> euint32 \<Rightarrow> VotingRoom \<Rightarrow> VotingRoom" where
  "FHE_allowThis en h s = FHE_allow h (this en) s"

definition setRoom :: "string \<Rightarrow> Room \<Rightarrow> VotingRoom \<Rightarrow> VotingRoom" where
  "setRoom roomCode r s = s\<lparr>rooms := (rooms s)(roomCode := r)\<rparr>"

definition setCandidate :: "string \<Rightarrow> nat \<Rightarrow> Candidate \<Rightarrow> VotingRoom \<Rightarrow> VotingRoom" where
  "setCandidate roomCode candidateId c s =
     s\<lparr>roomCandidates := (roomCandidates s)(roomCode := (roomCandidates s roomCode)(candidateId := c))\<rparr>"

text \<open>
  The body that \<^verbatim>\<open>addCandidate\<close> and both batch loops repeat: the candidate goes to
  index \<^verbatim>\<open>rooms[roomCode].candidateCount\<close> with an encrypted zero that the contract and
  the caller may read, and \<^verbatim>\<open>candidateCount++\<close> follows.
\<close>

definition pushCandidate ::
  "env \<Rightarrow> address \<Rightarrow> string \<Rightarrow> string \<Rightarrow> string \<Rightarrow> string \<Rightarrow> VotingRoom \<Rightarrow> error + VotingRoom" where
  "pushCandidate en sender roomCode nm ds img s =
     (let candidateId = candidateCount (rooms s roomCode);
          initialVotes = FHE_asEuint32 en 0;
          s1 = FHE_allowThis en initialVotes s;
          s2 = FHE_allow initialVotes sender s1;
          s3 = setCandidate roomCode candidateId
                 \<lparr>name = nm, Candidate.description = ds, imageUrl = img,
                  votes = initialVotes, exists = True\<rparr> s2
      in if candidateCount (rooms s3 roomCode) = MAX_UINT256 then Inl Panic
         else Inr (setRoom roomCode
                ((rooms s3 roomCode)\<lparr>candidateCount := candidateCount (rooms s3 roomCode) + 1\<rparr>) s3))"

text \<open>\<^verbatim>\<open>for (uint256 i = 0; i < names.length; i++)\<close>, run over the indices \<open>[0..<length names]\<close>.\<close>

fun candidatesLoop ::
  "env \<Rightarrow> address \<Rightarrow> string \<Rightarrow> string list \<Rightarrow> string list \<Rightarrow> string list \<Rightarrow> nat list
     \<Rightarrow> VotingRoom \<Rightarrow> error + VotingRoom" where
  "candidatesLoop en sender roomCode names descriptions imageUrls [] s = Inr s"
| "candidatesLoop en sender roomCode names descriptions imageUrls (i # is) s =
     (case pushCandidate en sender roomCode (names ! i) (descriptions ! i) (imageUrls ! i) s of
        Inl e \<Rightarrow> Inl e
      | Inr s' \<Rightarrow> candidatesLoop en sender roomCode names descriptions imageUrls is s')"

text \<open>
  The part that \<^verbatim>\<open>createRoom\<close> and \<^verbatim>\<open>createRoomWithCandidatesBatch\<close> share after
  their checks: the room is stored with \<open>participantCount = 0\<close>, its code is pushed on
  \<^verbatim>\<open>roomCodes\<close>, the creator becomes a participant and \<open>participantCount\<close> is set to 1.
\<close>

definition storeNewRoom ::
  "address \<Rightarrow> string \<Rightarrow> string \<Rightarrow> string \<Rightarrow> nat \<Rightarrow> nat \<Rightarrow> bool \<Rightarrow> bytes32 \<Rightarrow> VotingRoom \<Rightarrow> VotingRoom" where
  "storeNewRoom sender roomCode ttl ds maxP endT hasPw pwHash s =
     (let s1 = setRoom roomCode
                 \<lparr>code = roomCode, title = ttl, description = ds, creator = sender,
                  maxParticipants = maxP, participantCount = 0, endTime = endT,
                  hasPassword = hasPw, passwordHash = pwHash, isActive = True,
                  isClosed = False, candidateCount = 0\<rparr> s;
          s2 = s1\<lparr>roomCodes := roomCodes s1 @ [roomCode]\<rparr>;
          s3 = s2\<lparr>roomCodeIndex := (roomCodeIndex s2)(roomCode := length (roomCodes s2) - 1)\<rparr>;
          s4 = s3\<lparr>isParticipant := (isParticipant s3)(roomCode := (isParticipant s3 roomCode)(sender := True))\<rparr>
      in setRoom roomCode ((rooms s4 roomCode)\<lparr>participantCount := 1\<rparr>) s4)"

section \<open>The state-changing operations\<close>

text \<open>
  Each operation takes the library parameters, the storage, \<^verbatim>\<open>msg.sender\<close>,
  \<^verbatim>\<open>block.timestamp\<close> (where it is read) and the arguments of the source function.
\<close>

definition createRoom ::
  "VotingRoom \<Rightarrow> address \<Rightarrow> nat \<Rightarrow> string \<Rightarrow> string \<Rightarrow> string \<Rightarrow> nat \<Rightarrow> nat \<Rightarrow> bool \<Rightarrow> bytes32
     \<Rightarrow> error + VotingRoom" where
  "createRoom s sender now roomCode ttl ds maxP endT hasPw pwHash =
     require (length (code (rooms s roomCode)) = 0) RoomCodeAlreadyExists
    (require (endT > now) EndTimeMustBeInFuture
    (require (maxP > 0) MaxParticipantsMustBePositive
    (Inr (emit (RoomCreated roomCode sender ttl)
           (storeNewRoom sender roomCode ttl ds maxP endT hasPw pwHash s)))))"

definition createRoomWithCandidatesBatch ::
  "env \<Rightarrow> VotingRoom \<Rightarrow> address \<Rightarrow> nat \<Rightarrow> string \<Rightarrow> string \<Rightarrow> string \<Rightarrow> nat \<Rightarrow> nat \<Rightarrow> bool \<Rightarrow> bytes32
     \<Rightarrow> string list \<Rightarrow> string list \<Rightarrow> string list \<Rightarrow> error + VotingRoom" where
  "createRoomWithCandidatesBatch en s sender now roomCode ttl ds maxP endT hasPw pwHash
       candidateNames candidateDescriptions candidateImageUrls =
     require (length (code (rooms s roomCode)) = 0) RoomCodeAlreadyExists
    (require (endT > now) EndTimeMustBeInFuture
    (require (maxP > 0) MaxParticipantsMustBePositive
    (require (length candidateNames = length candidateDescriptions
              \<and> length candidateNames = length candidateImageUrls) ArraysLengthMismatch
    (require (length candidateNames \<ge> 2) AtLeast2CandidatesRequired
    (case candidatesLoop en sender roomCode candidateNames candidateDescriptions candidateImageUrls
            [0..<length candidateNames]
            (storeNewRoom sender roomCode ttl ds maxP endT hasPw pwHash s) of
       Inl e \<Rightarrow> Inl e
     | Inr s' \<Rightarrow> Inr (emit (RoomCreated roomCode sender ttl) s'))))))"

definition addCandidate ::
  "env \<Rightarrow> VotingRoom \<Rightarrow> address \<Rightarrow> string \<Rightarrow> string \<Rightarrow> string \<Rightarrow> string \<Rightarrow> error + VotingRoom" where
  "addCandidate en s sender roomCode nm ds img =
     modifier (roomExists s roomCode)
    (require (sender = creator (rooms s roomCode)) OnlyCreatorCanAddCandidates
    (require (isActive (rooms s roomCode)) RoomIsNotActive
    (pushCandidate en sender roomCode nm ds img s)))"

definition addCandidatesBatch ::
  "env \<Rightarrow> VotingRoom \<Rightarrow> address \<Rightarrow> string \<Rightarrow> string list \<Rightarrow> string list \<Rightarrow> string list
     \<Rightarrow> error + VotingRoom" where
  "addCandidatesBatch en s sender roomCode names descriptions imageUrls =
     modifier (roomExists s roomCode)
    (require (sender = creator (rooms s roomCode)) OnlyCreatorCanAddCandidates
    (require (isActive (rooms s roomCode)) RoomIsNotActive
    (require (length names = length descriptions \<and> length names = length imageUrls)
       ArraysLengthMismatch
    (require (length names > 0) AtLeastOneCandidateRequired
    (candidatesLoop en sender roomCode names descriptions imageUrls [0..<length names] s)))))"

definition joinRoom ::
  "env \<Rightarrow> VotingRoom \<Rightarrow> address \<Rightarrow> nat \<Rightarrow> string \<Rightarrow> string \<Rightarrow> error + VotingRoom" where
  "joinRoom en s sender now roomCode password =
     modifier (roomExists s roomCode)
    (modifier (roomActive s now roomCode)
    (require (\<not> isParticipant s roomCode sender) AlreadyAParticipant
    (require (participantCount (rooms s roomCode) < maxParticipants (rooms s roomCode)) RoomIsFull
    (require_if (hasPassword (rooms s roomCode))
       (keccak256 en password = passwordHash (rooms s roomCode)) InvalidPassword
    (let s1 = s\<lparr>isParticipant := (isParticipant s)(roomCode := (isParticipant s roomCode)(sender := True))\<rparr>
     in if participantCount (rooms s1 roomCode) = MAX_UINT256 then Inl Panic
        else
          let s2 = setRoom roomCode
                     ((rooms s1 roomCode)\<lparr>participantCount := participantCount (rooms s1 roomCode) + 1\<rparr>) s1;
              s3 = (if participantCount (rooms s2 roomCode) \<ge> maxParticipants (rooms s2 roomCode)
                    then emit (RoomClosed roomCode)
                           (setRoom roomCode ((rooms s2 roomCode)\<lparr>isClosed := True\<rparr>) s2)
                    else s2)
          in Inr (emit (RoomJoined roomCode sender) s3))))))"

definition vote ::
  "env \<Rightarrow> VotingRoom \<Rightarrow> address \<Rightarrow> nat \<Rightarrow> string \<Rightarrow> nat \<Rightarrow> externalEuint32 \<Rightarrow> bytes
     \<Rightarrow> error + VotingRoom" where
  "vote en s sender now roomCode candidateId encryptedVote inputProof =
     modifier (roomExists s roomCode)
    (modifier (isRoomParticipant s sender roomCode)
    (modifier (hasNotVoted s sender roomCode)
    (require (isActive (rooms s roomCode)) RoomIsNotActive
    (require (endTime (rooms s roomCode) > now) RoomHasEnded
    (require (candidateId < candidateCount (rooms s roomCode)) InvalidCandidate
    (require (exists (roomCandidates s roomCode candidateId)) CandidateDoesNotExist
    (case FHE_fromExternal en encryptedVote inputProof sender of
       None \<Rightarrow> Inl InvalidInputProof
     | Some encryptedVoteValue \<Rightarrow>
         let s1 = setCandidate roomCode candidateId
                    ((roomCandidates s roomCode candidateId)
                       \<lparr>votes := FHE_add en (votes (roomCandidates s roomCode candidateId))
                                   encryptedVoteValue\<rparr>) s;
             s2 = FHE_allowThis en (votes (roomCandidates s1 roomCode candidateId)) s1;
             s3 = FHE_allow (votes (roomCandidates s2 roomCode candidateId)) sender s2;
             s4 = FHE_allow (votes (roomCandidates s3 roomCode candidateId))
                    (creator (rooms s3 roomCode)) s3;
             s5 = s4\<lparr>hasVoted := (hasVoted s4)(roomCode := (hasVoted s4 roomCode)(sender := True))\<rparr>
         in if totalVotes s5 roomCode = MAX_UINT256 then Inl Panic
            else
              let s6 = s5\<lparr>totalVotes := (totalVotes s5)(roomCode := totalVotes s5 roomCode + 1)\<rparr>
              in if candidateVotes s6 roomCode candidateId = MAX_UINT256 then Inl Panic
                 else
                   let s7 = s6\<lparr>candidateVotes := (candidateVotes s6)
                                 (roomCode := (candidateVotes s6 roomCode)
                                    (candidateId := candidateVotes s6 roomCode candidateId + 1))\<rparr>;
                       s8 = (if totalVotes s7 roomCode \<ge> maxParticipants (rooms s7 roomCode)
                             then emit (RoomEnded roomCode)
                                    (setRoom roomCode ((rooms s7 roomCode)\<lparr>isActive := False\<rparr>) s7)
                             else s7)
                   in Inr (emit (VoteCast roomCode sender) s8))))))))"

definition endRoom :: "VotingRoom \<Rightarrow> address \<Rightarrow> string \<Rightarrow> error + VotingRoom" where
  "endRoom s sender roomCode =
     modifier (roomExists s roomCode)
    (require (sender = creator (rooms s roomCode)) OnlyCreatorCanEndRoom
    (require (isActive (rooms s roomCode)) RoomAlreadyEnded
    (Inr (emit (RoomEnded roomCode)
           (setRoom roomCode ((rooms s roomCode)\<lparr>isActive := False\<rparr>) s)))))"

definition checkAndEndRoom :: "VotingRoom \<Rightarrow> nat \<Rightarrow> string \<Rightarrow> error + VotingRoom" where
  "checkAndEndRoom s now roomCode =
     modifier (roomExists s roomCode)
    (require (isActive (rooms s roomCode)) RoomAlreadyEnded
    (require (now \<ge> endTime (rooms s roomCode)) RoomHasNotEndedYet
    (Inr (emit (RoomEnded roomCode)
           (setRoom roomCode ((rooms s roomCode)\<lparr>isActive := False\<rparr>) s)))))"

text \<open>\<^verbatim>\<open>clearResults[roomCode][i] = candidateVoteCounts[i]\<close> for the indices in the list.\<close>

fun storeClearResults :: "string \<Rightarrow> nat list \<Rightarrow> nat list \<Rightarrow> VotingRoom \<Rightarrow> VotingRoom" where
  "storeClearResults roomCode candidateVoteCounts [] s = s"
| "storeClearResults roomCode candidateVoteCounts (i # is) s =
     storeClearResults roomCode candidateVoteCounts is
       (s\<lparr>clearResults := (clearResults s)
             (roomCode := (clearResults s roomCode)(i := candidateVoteCounts ! i))\<rparr>)"

definition publishResults ::
  "VotingRoom \<Rightarrow> address \<Rightarrow> string \<Rightarrow> nat list \<Rightarrow> error + VotingRoom" where
  "publishResults s sender roomCode candidateVoteCounts =
     modifier (roomExists s roomCode)
    (require (sender = creator (rooms s roomCode)) OnlyCreatorCanPublishResults
    (require (\<not> isActive (rooms s roomCode)) RoomMustBeEnded
    (require (length candidateVoteCounts = candidateCount (rooms s roomCode))
       InvalidCandidateVotesLength
    (let s1 = storeClearResults roomCode candidateVoteCounts
                [0..<length candidateVoteCounts] s;
         s2 = s1\<lparr>resultsPublished := (resultsPublished s1)(roomCode := True)\<rparr>
     in Inr (emit (ResultsPublished roomCode) s2)))))"

section \<open>Read-only operations\<close>

definition getCandidate :: "VotingRoom \<Rightarrow> string \<Rightarrow> nat \<Rightarrow> error + (string \<times> string \<times> string)" where
  "getCandidate s roomCode candidateId =
     modifier (roomExists s roomCode)
    (require (candidateId < candidateCount (rooms s roomCode)) InvalidCandidate
    (let candidate = roomCandidates s roomCode candidateId
     in Inr (name candidate, Candidate.description candidate, imageUrl candidate)))"

definition getClearResults :: "VotingRoom \<Rightarrow> string \<Rightarrow> nat \<Rightarrow> error + nat" where
  "getClearResults s roomCode candidateId =
     modifier (roomExists s roomCode)
    (require (resultsPublished s roomCode) ResultsNotPublishedYet
    (require (candidateId < candidateCount (rooms s roomCode)) InvalidCandidate
    (Inr (clearResults s roomCode candidateId))))"

definition areResultsPublished :: "VotingRoom \<Rightarrow> string \<Rightarrow> error + bool" where
  "areResultsPublished s roomCode =
     modifier (roomExists s roomCode) (Inr (resultsPublished s roomCode))"

definition getRoom :: "VotingRoom \<Rightarrow> string \<Rightarrow> error + Room" where
  "getRoom s roomCode = modifier (roomExists s roomCode) (Inr (rooms s roomCode))"

definition getTotalVotes :: "VotingRoom \<Rightarrow> string \<Rightarrow> error + nat" where
  "getTotalVotes s roomCode = modifier (roomExists s roomCode) (Inr (totalVotes s roomCode))"

definition getCandidateVoteCount :: "VotingRoom \<Rightarrow> string \<Rightarrow> nat \<Rightarrow> error + nat" where
  "getCandidateVoteCount s roomCode candidateId =
     modifier (roomExists s roomCode)
    (require (candidateId < candidateCount (rooms s roomCode)) InvalidCandidate
    (Inr (candidateVotes s roomCode candidateId)))"

section \<open>Transactions\<close>

text \<open>
  A call of one of the nine state-changing functions. A transaction is the caller, the
  block timestamp and the call; a reverted transaction leaves the storage as it was.
\<close>

datatype call =
    CreateRoom string string string nat nat bool bytes32
  | CreateRoomWithCandidatesBatch string string string nat nat bool bytes32
      "string list" "string list" "string list"
  | AddCandidate string string string string
  | AddCandidatesBatch string "string list" "string list" "string list"
  | JoinRoom string string
  | Vote string nat externalEuint32 bytes
  | EndRoom string
  | CheckAndEndRoom string
  | PublishResults string "nat list"

type_synonym tx = "address \<times> nat \<times> call"

fun step :: "env \<Rightarrow> VotingRoom \<Rightarrow> address \<Rightarrow> nat \<Rightarrow> call \<Rightarrow> error + VotingRoom" where
  "step en s sender now (CreateRoom rc ttl ds maxP endT hasPw pwHash) =
     createRoom s sender now rc ttl ds maxP endT hasPw pwHash"
| "step en s sender now (CreateRoomWithCandidatesBatch rc ttl ds maxP endT hasPw pwHash ns dss imgs) =
     createRoomWithCandidatesBatch en s sender now rc ttl ds maxP endT hasPw pwHash ns dss imgs"
| "step en s sender now (AddCandidate rc nm ds img) = addCandidate en s sender rc nm ds img"
| "step en s sender now (AddCandidatesBatch rc ns dss imgs) =
     addCandidatesBatch en s sender rc ns dss imgs"
| "step en s sender now (JoinRoom rc password) = joinRoom en s sender now rc password"
| "step en s sender now (Vote rc candidateId encryptedVote inputProof) =
     vote en s sender now rc candidateId encryptedVote inputProof"
| "step en s sender now (EndRoom rc) = endRoom s sender rc"
| "step en s sender now (CheckAndEndRoom rc) = checkAndEndRoom s now rc"
| "step en s sender now (PublishResults rc counts) = publishResults s sender rc counts"

fun apply_tx :: "env \<Rightarrow> VotingRoom \<Rightarrow> tx \<Rightarrow> VotingRoom" where
  "apply_tx en s (sender, now, c) = (case step en s sender now c of Inl e \<Rightarrow> s | Inr s' \<Rightarrow> s')"

definition run :: "env \<Rightarrow> VotingRoom \<Rightarrow> tx list \<Rightarrow> VotingRoom" where
  "run en s txs = foldl (apply_tx en) s txs"

section \<open>Notions used by the properties\<close>

text \<open>The room exists for the contract, and the identity is a participant who has voted.\<close>

definition voted_in :: "VotingRoom \<Rightarrow> string \<Rightarrow> address \<Rightarrow> bool" where
  "voted_in s rc a = (code (rooms s rc) \<noteq> [] \<and> isParticipant s rc a \<and> hasVoted s rc a)"

text \<open>The room exists for the contract and its \<open>isActive\<close> flag is down.\<close>

definition ended :: "VotingRoom \<Rightarrow> string \<Rightarrow> bool" where
  "ended s rc = (code (rooms s rc) \<noteq> [] \<and> \<not> isActive (rooms s rc))"

text \<open>The calls that are a \<^verbatim>\<open>vote\<close>.\<close>

fun isVote :: "call \<Rightarrow> bool" where
  "isVote (Vote rc candidateId encryptedVote inputProof) = True"
| "isVote c = False"

text \<open>The identities that have voted in a room.\<close>

definition voters :: "VotingRoom \<Rightarrow> string \<Rightarrow> address set" where
  "voters s rc = {a. hasVoted s rc a}"

text \<open>
  The accounting of a room: the counters agree with each other and with the set of
  voters, no counter is set beyond \<open>candidateCount\<close>, and a room without a code has no votes.
\<close>

definition accounting :: "VotingRoom \<Rightarrow> string \<Rightarrow> bool" where
  "accounting s rc =
     (totalVotes s rc = (\<Sum>i<candidateCount (rooms s rc). candidateVotes s rc i)
      \<and> finite (voters s rc) \<and> card (voters s rc) = totalVotes s rc
      \<and> (\<forall>i. candidateCount (rooms s rc) \<le> i \<longrightarrow> candidateVotes s rc i = 0)
      \<and> (code (rooms s rc) = [] \<longrightarrow> totalVotes s rc = 0))"

text \<open>
  What holds of \<open>isClosed\<close> in every room: it is set exactly when the room is full and was
  filled by a join; a room that exists has at least its creator as participant.
\<close>

definition closing :: "VotingRoom \<Rightarrow> string \<Rightarrow> bool" where
  "closing s rc =
     ((isClosed (rooms s rc) \<longleftrightarrow>
         participantCount (rooms s rc) = maxParticipants (rooms s rc)
         \<and> 2 \<le> maxParticipants (rooms s rc))
      \<and> (code (rooms s rc) \<noteq> [] \<longrightarrow> 1 \<le> participantCount (rooms s rc)))"

text \<open>Every registered code either exists for the contract or names an active room.\<close>

definition registry :: "VotingRoom \<Rightarrow> bool" where
  "registry s = (\<forall>rc \<in> set (roomCodes s). code (rooms s rc) \<noteq> [] \<or> isActive (rooms s rc))"

text \<open>The three texts of a candidate, as \<^verbatim>\<open>getCandidate\<close> returns them.\<close>

definition texts :: "Candidate \<Rightarrow> string \<times> string \<times> string" where
  "texts c = (name c, Candidate.description c, imageUrl c)"

text \<open>Candidate \<open>j\<close> of an existing room is within \<open>candidateCount\<close> and carries the texts \<open>x\<close>.\<close>

definition listed :: "VotingRoom \<Rightarrow> string \<Rightarrow> nat \<Rightarrow> string \<times> string \<times> string \<Rightarrow> bool" where
  "listed s rc j x =
     (code (rooms s rc) \<noteq> [] \<and> j < candidateCount (rooms s rc) \<and> texts (roomCandidates s rc j) = x)"

section \<open>A concrete history\<close>

text \<open>
  A concrete instance of the library parameters and a short history, for evaluating the
  operations: room R1 for two participants with candidates A and B, created by identity 1
  and joined by identity 2.
\<close>

definition demo_env :: env where
  "demo_env = \<lparr>this = 0, keccak256 = length, FHE_asEuint32 = (\<lambda>n. n),
                FHE_fromExternal = (\<lambda>h p a. if p = [] then None else Some h), FHE_add = (+)\<rparr>"

definition demo_txs :: "tx list" where
  "demo_txs =
     [(1, 10, CreateRoomWithCandidatesBatch ''R1'' ''T'' ''D'' 2 100 False 0
                [''A'', ''B''] [''a'', ''b''] [''x'', ''y'']),
      (2, 20, JoinRoom ''R1'' [])]"

definition demo_state :: VotingRoom where
  "demo_state = run demo_env deployed demo_txs"

text \<open>Both participants vote: identity 1 for candidate 0, then identity 2 for candidate 1.\<close>

definition demo_vote1 :: tx where
  "demo_vote1 = (1, 30, Vote ''R1'' 0 1 ''p'')"

definition demo_vote2 :: tx where
  "demo_vote2 = (2, 40, Vote ''R1'' 1 1 ''p'')"

definition demo_voted1 :: VotingRoom where
  "demo_voted1 = apply_tx demo_env demo_state demo_vote1"

definition demo_voted2 :: VotingRoom where
  "demo_voted2 = apply_tx demo_env demo_voted1 demo_vote2"

text \<open>
  A password-protected room P1 for three participants. The hash of \<open>demo_env\<close> is the
  length of the password, so the stored hash 4 fits every password of four characters.
\<close>

definition demo_pw_state :: VotingRoom where
  "demo_pw_state = run demo_env deployed [(1, 10, CreateRoom ''P1'' ''T'' ''D'' 3 100 True 4)]"

text \<open>The creator of R1 publishes the counts 7 and 9 after the room has ended.\<close>

definition demo_published :: VotingRoom where
  "demo_published = apply_tx demo_env demo_voted2 (1, 50, PublishResults ''R1'' [7, 9])"

text \<open>On the deployed contract, identity 1 creates a room under the empty code with the candidates A and B.\<close>

definition demo_empty_created :: VotingRoom where
  "demo_empty_created =
     apply_tx demo_env deployed
       (1, 10, CreateRoomWithCandidatesBatch [] ''T'' ''D'' 2 100 False 0
                 [''A'', ''B''] [''a'', ''b''] [''x'', ''y''])"

text \<open>On the deployed contract, identity 1 creates room S1 for a single participant.\<close>

definition demo_single_created :: VotingRoom where
  "demo_single_created =
     apply_tx demo_env deployed (1, 10, CreateRoom ''S1'' ''T'' ''D'' 1 100 False 0)"

section \<open>What each storage write leaves alone\<close>

lemma emit_fields [simp]:
  "rooms (emit e s) = rooms s"
  "roomCandidates (emit e s) = roomCandidates s"
  "hasVoted (emit e s) = hasVoted s"
  "isParticipant (emit e s) = isParticipant s"
  "totalVotes (emit e s) = totalVotes s"
  "candidateVotes (emit e s) = candidateVotes s"
  "clearResults (emit e s) = clearResults s"
  "resultsPublished (emit e s) = resultsPublished s"
  "roomCodes (emit e s) = roomCodes s"
  by (simp_all add: emit_def)

lemma FHE_allow_fields [simp]:
  "rooms (FHE_allow h a s) = rooms s"
  "roomCandidates (FHE_allow h a s) = roomCandidates s"
  "hasVoted (FHE_allow h a s) = hasVoted s"
  "isParticipant (FHE_allow h a s) = isParticipant s"
  "totalVotes (FHE_allow h a s) = totalVotes s"
  "candidateVotes (FHE_allow h a s) = candidateVotes s"
  "clearResults (FHE_allow h a s) = clearResults s"
  "resultsPublished (FHE_allow h a s) = resultsPublished s"
  "roomCodes (FHE_allow h a s) = roomCodes s"
  by (simp_all add: FHE_allow_def)

lemma FHE_allowThis_fields [simp]:
  "rooms (FHE_allowThis en h s) = rooms s"
  "roomCandidates (FHE_allowThis en h s) = roomCandidates s"
  "hasVoted (FHE_allowThis en h s) = hasVoted s"
  "isParticipant (FHE_allowThis en h s) = isParticipant s"
  "totalVotes (FHE_allowThis en h s) = totalVotes s"
  "candidateVotes (FHE_allowThis en h s) = candidateVotes s"
  "clearResults (FHE_allowThis en h s) = clearResults s"
  "resultsPublished (FHE_allowThis en h s) = resultsPublished s"
  "roomCodes (FHE_allowThis en h s) = roomCodes s"
  by (simp_all add: FHE_allowThis_def)

lemma setRoom_fields [simp]:
  "rooms (setRoom rc r s) = (rooms s)(rc := r)"
  "roomCandidates (setRoom rc r s) = roomCandidates s"
  "hasVoted (setRoom rc r s) = hasVoted s"
  "isParticipant (setRoom rc r s) = isParticipant s"
  "totalVotes (setRoom rc r s) = totalVotes s"
  "candidateVotes (setRoom rc r s) = candidateVotes s"
  "clearResults (setRoom rc r s) = clearResults s"
  "resultsPublished (setRoom rc r s) = resultsPublished s"
  "roomCodes (setRoom rc r s) = roomCodes s"
  by (simp_all add: setRoom_def)

lemma setCandidate_fields [simp]:
  "rooms (setCandidate rc i c s) = rooms s"
  "roomCandidates (setCandidate rc i c s) = (roomCandidates s)(rc := (roomCandidates s rc)(i := c))"
  "hasVoted (setCandidate rc i c s) = hasVoted s"
  "isParticipant (setCandidate rc i c s) = isParticipant s"
  "totalVotes (setCandidate rc i c s) = totalVotes s"
  "candidateVotes (setCandidate rc i c s) = candidateVotes s"
  "clearResults (setCandidate rc i c s) = clearResults s"
  "resultsPublished (setCandidate rc i c s) = resultsPublished s"
  "roomCodes (setCandidate rc i c s) = roomCodes s"
  by (simp_all add: setCandidate_def)

lemma storeNewRoom_fields [simp]:
  "rooms (storeNewRoom a rc ttl ds maxP endT hasPw pwHash s) =
     (rooms s)(rc := \<lparr>code = rc, title = ttl, description = ds, creator = a,
                  maxParticipants = maxP, participantCount = 1, endTime = endT,
                  hasPassword = hasPw, passwordHash = pwHash, isActive = True,
                  isClosed = False, candidateCount = 0\<rparr>)"
  "roomCandidates (storeNewRoom a rc ttl ds maxP endT hasPw pwHash s) = roomCandidates s"
  "hasVoted (storeNewRoom a rc ttl ds maxP endT hasPw pwHash s) = hasVoted s"
  "isParticipant (storeNewRoom a rc ttl ds maxP endT hasPw pwHash s) =
     (isParticipant s)(rc := (isParticipant s rc)(a := True))"
  "totalVotes (storeNewRoom a rc ttl ds maxP endT hasPw pwHash s) = totalVotes s"
  "candidateVotes (storeNewRoom a rc ttl ds maxP endT hasPw pwHash s) = candidateVotes s"
  "clearResults (storeNewRoom a rc ttl ds maxP endT hasPw pwHash s) = clearResults s"
  "resultsPublished (storeNewRoom a rc ttl ds maxP endT hasPw pwHash s) = resultsPublished s"
  "roomCodes (storeNewRoom a rc ttl ds maxP endT hasPw pwHash s) = roomCodes s @ [rc]"
  by (simp_all add: storeNewRoom_def Let_def)

lemma storeClearResults_fields [simp]:
  "rooms (storeClearResults rc cs is s) = rooms s"
  "roomCandidates (storeClearResults rc cs is s) = roomCandidates s"
  "hasVoted (storeClearResults rc cs is s) = hasVoted s"
  "isParticipant (storeClearResults rc cs is s) = isParticipant s"
  "totalVotes (storeClearResults rc cs is s) = totalVotes s"
  "candidateVotes (storeClearResults rc cs is s) = candidateVotes s"
  "resultsPublished (storeClearResults rc cs is s) = resultsPublished s"
  "roomCodes (storeClearResults rc cs is s) = roomCodes s"
  by (induction "is" arbitrary: s; simp)+

lemma pushCandidate_Inr:
  assumes "pushCandidate en a rc nm ds img s = Inr s'"
  shows "(rooms s' = (rooms s)(rc := (rooms s rc)\<lparr>candidateCount := candidateCount (rooms s rc) + 1\<rparr>))
    \<and> (roomCandidates s' = (roomCandidates s)(rc := (roomCandidates s rc)
           (candidateCount (rooms s rc) :=
              \<lparr>name = nm, Candidate.description = ds, imageUrl = img,
               votes = FHE_asEuint32 en 0, exists = True\<rparr>)))
    \<and> (hasVoted s' = hasVoted s)
    \<and> (isParticipant s' = isParticipant s)
    \<and> (totalVotes s' = totalVotes s)
    \<and> (candidateVotes s' = candidateVotes s)
    \<and> (clearResults s' = clearResults s)
    \<and> (resultsPublished s' = resultsPublished s)
    \<and> (roomCodes s' = roomCodes s)"
  using assms by (auto simp: pushCandidate_def Let_def split: if_splits)

lemma candidatesLoop_Inr:
  assumes "candidatesLoop en a rc ns dss imgs is s = Inr s'"
  shows "rooms s' = (rooms s)(rc := (rooms s rc)\<lparr>candidateCount := candidateCount (rooms s rc) + length is\<rparr>)
    \<and> hasVoted s' = hasVoted s
    \<and> isParticipant s' = isParticipant s
    \<and> totalVotes s' = totalVotes s
    \<and> candidateVotes s' = candidateVotes s
    \<and> clearResults s' = clearResults s
    \<and> resultsPublished s' = resultsPublished s
    \<and> roomCodes s' = roomCodes s"
  using assms
proof (induction "is" arbitrary: s)
  case Nil
  then show ?case by simp
next
  case (Cons i "is")
  from Cons.prems obtain s1 where
    p: "pushCandidate en a rc (ns ! i) (dss ! i) (imgs ! i) s = Inr s1"
    and l: "candidatesLoop en a rc ns dss imgs is s1 = Inr s'"
    by (auto split: sum.splits)
  show ?case
    using Cons.IH [OF l] pushCandidate_Inr [OF p] by (simp add: fun_eq_iff)
qed

section \<open>What a successful call has checked and written\<close>

lemmas check_defs = require_def modifier_def require_if_def roomExists_def roomActive_def
  hasNotVoted_def isRoomParticipant_def

lemma createRoom_Inr:
  assumes "createRoom s a t rc ttl ds maxP endT hasPw pwHash = Inr s'"
  shows "(code (rooms s rc) = [])
    \<and> (endT > t)
    \<and> (maxP > 0)
    \<and> (s' = emit (RoomCreated rc a ttl) (storeNewRoom a rc ttl ds maxP endT hasPw pwHash s))"
  using assms by (auto simp: createRoom_def check_defs split: if_splits)

lemma createRoomWithCandidatesBatch_Inr:
  assumes "createRoomWithCandidatesBatch en s a t rc ttl ds maxP endT hasPw pwHash ns dss imgs = Inr s'"
  shows "(code (rooms s rc) = [])
    \<and> (endT > t)
    \<and> (maxP > 0)
    \<and> (length ns = length dss)
    \<and> (length ns = length imgs)
    \<and> (length ns \<ge> 2)
    \<and> (\<exists>s1. candidatesLoop en a rc ns dss imgs [0..<length ns]
                 (storeNewRoom a rc ttl ds maxP endT hasPw pwHash s) = Inr s1
             \<and> s' = emit (RoomCreated rc a ttl) s1)"
  using assms by (auto simp: createRoomWithCandidatesBatch_def check_defs split: if_splits sum.splits)

lemma addCandidate_Inr:
  assumes "addCandidate en s a rc nm ds img = Inr s'"
  shows "(code (rooms s rc) \<noteq> [])
    \<and> (a = creator (rooms s rc))
    \<and> (isActive (rooms s rc))
    \<and> (pushCandidate en a rc nm ds img s = Inr s')"
  using assms by (auto simp: addCandidate_def check_defs split: if_splits)

lemma addCandidatesBatch_Inr:
  assumes "addCandidatesBatch en s a rc ns dss imgs = Inr s'"
  shows "(code (rooms s rc) \<noteq> [])
    \<and> (a = creator (rooms s rc))
    \<and> (isActive (rooms s rc))
    \<and> (length ns = length dss)
    \<and> (length ns = length imgs)
    \<and> (length ns > 0)
    \<and> (candidatesLoop en a rc ns dss imgs [0..<length ns] s = Inr s')"
  using assms by (auto simp: addCandidatesBatch_def check_defs split: if_splits)

lemma joinRoom_Inr:
  assumes "joinRoom en s a t rc pw = Inr s'"
  shows "(code (rooms s rc) \<noteq> [])
    \<and> (isActive (rooms s rc))
    \<and> (endTime (rooms s rc) > t)
    \<and> (\<not> isClosed (rooms s rc))
    \<and> (\<not> isParticipant s rc a)
    \<and> (participantCount (rooms s rc) < maxParticipants (rooms s rc))
    \<and> (hasPassword (rooms s rc) \<longrightarrow> keccak256 en pw = passwordHash (rooms s rc))
    \<and> (rooms s' = (rooms s)(rc := (rooms s rc)
           \<lparr>participantCount := participantCount (rooms s rc) + 1,
            isClosed := (participantCount (rooms s rc) + 1 \<ge> maxParticipants (rooms s rc))\<rparr>))
    \<and> (isParticipant s' = (isParticipant s)(rc := (isParticipant s rc)(a := True)))
    \<and> (roomCandidates s' = roomCandidates s)
    \<and> (hasVoted s' = hasVoted s)
    \<and> (totalVotes s' = totalVotes s)
    \<and> (candidateVotes s' = candidateVotes s)
    \<and> (clearResults s' = clearResults s)
    \<and> (resultsPublished s' = resultsPublished s)
    \<and> (roomCodes s' = roomCodes s)"
  using assms by (auto simp: joinRoom_def check_defs Let_def split: if_splits)

lemma vote_Inr:
  assumes "vote en s a t rc cid ev pr = Inr s'"
  shows "(code (rooms s rc) \<noteq> [])
    \<and> (isParticipant s rc a)
    \<and> (\<not> hasVoted s rc a)
    \<and> (isActive (rooms s rc))
    \<and> (endTime (rooms s rc) > t)
    \<and> (cid < candidateCount (rooms s rc))
    \<and> (exists (roomCandidates s rc cid))
    \<and> (\<exists>v. FHE_fromExternal en ev pr a = Some v
           \<and> roomCandidates s' = (roomCandidates s)(rc := (roomCandidates s rc)
               (cid := (roomCandidates s rc cid)\<lparr>votes := FHE_add en (votes (roomCandidates s rc cid)) v\<rparr>)))
    \<and> (rooms s' = (rooms s)(rc := (rooms s rc)
           \<lparr>isActive := \<not> (totalVotes s rc + 1 \<ge> maxParticipants (rooms s rc))\<rparr>))
    \<and> (hasVoted s' = (hasVoted s)(rc := (hasVoted s rc)(a := True)))
    \<and> (totalVotes s' = (totalVotes s)(rc := totalVotes s rc + 1))
    \<and> (candidateVotes s' = (candidateVotes s)(rc := (candidateVotes s rc)(cid := candidateVotes s rc cid + 1)))
    \<and> (isParticipant s' = isParticipant s)
    \<and> (clearResults s' = clearResults s)
    \<and> (resultsPublished s' = resultsPublished s)
    \<and> (roomCodes s' = roomCodes s)"
  using assms by (auto simp: vote_def check_defs Let_def split: if_splits option.splits)

lemma endRoom_Inr:
  assumes "endRoom s a rc = Inr s'"
  shows "(code (rooms s rc) \<noteq> [])
    \<and> (a = creator (rooms s rc))
    \<and> (isActive (rooms s rc))
    \<and> (s' = emit (RoomEnded rc) (setRoom rc ((rooms s rc)\<lparr>isActive := False\<rparr>) s))"
  using assms by (auto simp: endRoom_def check_defs split: if_splits)

lemma checkAndEndRoom_Inr:
  assumes "checkAndEndRoom s t rc = Inr s'"
  shows "(code (rooms s rc) \<noteq> [])
    \<and> (isActive (rooms s rc))
    \<and> (t \<ge> endTime (rooms s rc))
    \<and> (s' = emit (RoomEnded rc) (setRoom rc ((rooms s rc)\<lparr>isActive := False\<rparr>) s))"
  using assms by (auto simp: checkAndEndRoom_def check_defs split: if_splits)

lemma publishResults_Inr:
  assumes "publishResults s a rc counts = Inr s'"
  shows "(code (rooms s rc) \<noteq> [])
    \<and> (a = creator (rooms s rc))
    \<and> (\<not> isActive (rooms s rc))
    \<and> (length counts = candidateCount (rooms s rc))
    \<and> (s' = emit (ResultsPublished rc)
               ((storeClearResults rc counts [0..<length counts] s)
                  \<lparr>resultsPublished := (resultsPublished s)(rc := True)\<rparr>))"
  using assms by (auto simp: publishResults_def check_defs Let_def split: if_splits)

section \<open>One transaction\<close>

lemmas op_Inr = createRoom_Inr createRoomWithCandidatesBatch_Inr addCandidate_Inr
  addCandidatesBatch_Inr joinRoom_Inr vote_Inr endRoom_Inr checkAndEndRoom_Inr publishResults_Inr

lemma step_existing_room:
  assumes "step en s a t c = Inr s'" and "code (rooms s rc) \<noteq> []"
  shows "code (rooms s' rc) = code (rooms s rc)
    \<and> creator (rooms s' rc) = creator (rooms s rc)
    \<and> maxParticipants (rooms s' rc) = maxParticipants (rooms s rc)
    \<and> endTime (rooms s' rc) = endTime (rooms s rc)
    \<and> hasPassword (rooms s' rc) = hasPassword (rooms s rc)
    \<and> passwordHash (rooms s' rc) = passwordHash (rooms s rc)
    \<and> candidateCount (rooms s rc) \<le> candidateCount (rooms s' rc)
    \<and> participantCount (rooms s rc) \<le> participantCount (rooms s' rc)
    \<and> (isActive (rooms s' rc) \<longrightarrow> isActive (rooms s rc))
    \<and> (isClosed (rooms s rc) \<longrightarrow> isClosed (rooms s' rc))"
  using assms
  by (cases c) (auto dest!: op_Inr candidatesLoop_Inr pushCandidate_Inr split: if_splits)

lemma step_flags_mono:
  assumes "step en s a t c = Inr s'"
  shows "(hasVoted s rc b \<longrightarrow> hasVoted s' rc b) \<and> (isParticipant s rc b \<longrightarrow> isParticipant s' rc b)"
  using assms
  by (cases c) (auto dest!: op_Inr candidatesLoop_Inr pushCandidate_Inr split: if_splits)

lemma step_bound:
  assumes "step en s a t c = Inr s'"
    and "participantCount (rooms s rc) \<le> maxParticipants (rooms s rc)"
  shows "participantCount (rooms s' rc) \<le> maxParticipants (rooms s' rc)"
  using assms
  by (cases c) (auto dest!: op_Inr candidatesLoop_Inr pushCandidate_Inr split: if_splits)

section \<open>Sequences of transactions\<close>

lemma apply_tx_cases:
  obtains (reverted) "apply_tx en s tx = s"
  | (committed) a t c where "tx = (a, t, c)" and "step en s a t c = Inr (apply_tx en s tx)"
proof (cases tx)
  case (fields a t c)
  show thesis
  proof (cases "step en s a t c")
    case (Inl e)
    with fields reverted show thesis by simp
  next
    case (Inr s')
    with fields committed [of a t c] show thesis by simp
  qed
qed

lemma run_Nil [simp]: "run en s [] = s"
  by (simp add: run_def)

lemma run_Cons [simp]: "run en s (tx # txs) = run en (apply_tx en s tx) txs"
  by (simp add: run_def)

lemma apply_tx_voted_in: "voted_in s rc a \<Longrightarrow> voted_in (apply_tx en s tx) rc a"
proof (cases rule: apply_tx_cases [of en s tx])
  case reverted
  assume "voted_in s rc a"
  with reverted show ?thesis by simp
next
  case (committed b t c)
  assume v: "voted_in s rc a"
  from step_existing_room [OF committed(2)] step_flags_mono [OF committed(2)] v
  show ?thesis unfolding voted_in_def by metis
qed

lemma run_voted_in: "voted_in s rc a \<Longrightarrow> voted_in (run en s txs) rc a"
  by (induction txs arbitrary: s) (simp_all add: apply_tx_voted_in)

lemma vote_voted_in:
  assumes "vote en s a t rc cid ev pr = Inr s'"
  shows "voted_in s' rc a"
  using vote_Inr [OF assms] by (simp add: voted_in_def)

lemma voted_in_vote: "voted_in s rc a \<Longrightarrow> vote en s a t rc cid ev pr = Inl AlreadyVoted"
  by (simp add: voted_in_def vote_def check_defs)

section \<open>Evaluating the concrete history\<close>

lemmas eval_defs = demo_env_def deployed_def emptyRoom_def emptyCandidate_def
  createRoom_def createRoomWithCandidatesBatch_def addCandidate_def addCandidatesBatch_def
  joinRoom_def vote_def endRoom_def checkAndEndRoom_def publishResults_def
  check_defs Let_def pushCandidate_def MAX_UINT256_def storeNewRoom_def setRoom_def
  setCandidate_def emit_def FHE_allow_def FHE_allowThis_def

lemma demo_rooms: "rooms demo_state ''R1'' =
   \<lparr>code = ''R1'', title = ''T'', description = ''D'', creator = 1, maxParticipants = 2,
    participantCount = 2, endTime = 100, hasPassword = False, passwordHash = 0,
    isActive = True, isClosed = True, candidateCount = 2\<rparr>"
  by (simp add: demo_state_def demo_txs_def eval_defs)

lemma demo_vote: "\<exists>s'. vote demo_env demo_state 1 30 ''R1'' 0 1 ''p'' = Inr s'"
  by (simp add: demo_state_def demo_txs_def eval_defs)

lemma demo_vote_ok:
  "vote demo_env demo_state 1 30 ''R1'' 0 1 ''p''
     = Inr (apply_tx demo_env demo_state (1, 30, Vote ''R1'' 0 1 ''p''))"
proof -
  obtain s' where v: "vote demo_env demo_state 1 30 ''R1'' 0 1 ''p'' = Inr s'"
    using demo_vote by blast
  then show ?thesis by simp
qed

section \<open>Ended rooms stay ended\<close>

lemma roomExists_None [simp]: "roomExists s rc = None \<longleftrightarrow> code (rooms s rc) \<noteq> []"
  by (simp add: roomExists_def)

lemma apply_tx_ended: "ended s rc \<Longrightarrow> ended (apply_tx en s tx) rc"
proof (cases rule: apply_tx_cases [of en s tx])
  case reverted
  assume "ended s rc"
  with reverted show ?thesis by simp
next
  case (committed b t c)
  assume e: "ended s rc"
  from step_existing_room [OF committed(2), of rc] e
  show ?thesis unfolding ended_def by metis
qed

lemma run_ended: "ended s rc \<Longrightarrow> ended (run en s txs) rc"
  by (induction txs arbitrary: s) (simp_all add: apply_tx_ended)

lemma ended_vote_fails:
  "ended s rc \<Longrightarrow>
     vote en s a t rc cid ev pr \<in> {Inl NotAParticipant, Inl AlreadyVoted, Inl RoomIsNotActive}"
  by (simp add: ended_def vote_def check_defs)

lemma ended_checkAndEndRoom: "ended s rc \<Longrightarrow> checkAndEndRoom s t rc = Inl RoomAlreadyEnded"
  by (simp add: ended_def checkAndEndRoom_def check_defs)

lemma vote_closes:
  assumes "vote en s a t rc cid ev pr = Inr s1"
    and "totalVotes s1 rc \<ge> maxParticipants (rooms s1 rc)"
  shows "ended s1 rc"
  using vote_Inr [OF assms(1)] assms(2) by (simp add: ended_def)

lemmas demo_defs = demo_state_def demo_txs_def demo_vote1_def demo_vote2_def
  demo_voted1_def demo_voted2_def

lemma demo_vote2_ok: "vote demo_env demo_voted1 2 40 ''R1'' 1 1 ''p'' = Inr demo_voted2"
proof -
  have "\<exists>s'. vote demo_env demo_voted1 2 40 ''R1'' 1 1 ''p'' = Inr s'"
    by (simp add: demo_defs eval_defs)
  then show ?thesis by (auto simp: demo_voted2_def demo_vote2_def)
qed

lemma demo_voted2_room: "rooms demo_voted2 ''R1'' =
   \<lparr>code = ''R1'', title = ''T'', description = ''D'', creator = 1, maxParticipants = 2,
    participantCount = 2, endTime = 100, hasPassword = False, passwordHash = 0,
    isActive = False, isClosed = True, candidateCount = 2\<rparr>"
  by (simp add: demo_defs eval_defs)

lemma demo_voted2_totalVotes: "totalVotes demo_voted2 ''R1'' = 2"
  by (simp add: demo_defs eval_defs)

section \<open>The participant bound and the gates of joinRoom\<close>

lemma apply_tx_bound:
  assumes "participantCount (rooms s rc) \<le> maxParticipants (rooms s rc)"
  shows "participantCount (rooms (apply_tx en s tx) rc) \<le> maxParticipants (rooms (apply_tx en s tx) rc)"
proof (cases rule: apply_tx_cases [of en s tx])
  case reverted
  with assms show ?thesis by simp
next
  case (committed b t c)
  from step_bound [OF committed(2) assms] show ?thesis .
qed

lemma run_bound:
  "participantCount (rooms s rc) \<le> maxParticipants (rooms s rc) \<Longrightarrow>
   participantCount (rooms (run en s txs) rc) \<le> maxParticipants (rooms (run en s txs) rc)"
  by (induction txs arbitrary: s) (simp_all add: apply_tx_bound)

lemma deployed_bound: "participantCount (rooms deployed rc) \<le> maxParticipants (rooms deployed rc)"
  by (simp add: deployed_def emptyRoom_def)

lemma demo_join3: "rooms (apply_tx demo_env demo_state (3, 25, JoinRoom ''R1'' [])) ''R1'' = rooms demo_state ''R1''"
  by (simp add: demo_rooms joinRoom_def check_defs)

lemma demo_pw_room: "rooms demo_pw_state ''P1'' =
   \<lparr>code = ''P1'', title = ''T'', description = ''D'', creator = 1, maxParticipants = 3,
    participantCount = 1, endTime = 100, hasPassword = True, passwordHash = 4,
    isActive = True, isClosed = False, candidateCount = 0\<rparr>"
  by (simp add: demo_pw_state_def eval_defs)

lemma demo_pw_participant:
  "isParticipant demo_pw_state ''P1'' 1" "\<not> isParticipant demo_pw_state ''P1'' 2"
  by (simp_all add: demo_pw_state_def eval_defs)

section \<open>Publishing results\<close>

lemma storeClearResults_clearResults:
  "clearResults (storeClearResults rc cs is s) rc i
     = (if i \<in> set is then cs ! i else clearResults s rc i)"
  by (induction "is" arbitrary: s) auto

lemma publishResults_isl:
  "isl (publishResults s a rc counts) \<longleftrightarrow>
     \<not> (roomExists s rc = None \<and> a = creator (rooms s rc) \<and> \<not> isActive (rooms s rc)
        \<and> length counts = candidateCount (rooms s rc))"
  by (simp add: publishResults_def check_defs Let_def)

lemma publishResults_published:
  assumes "publishResults s a rc counts = Inr s'"
  shows "resultsPublished s' rc"
    and "rooms s' = rooms s"
    and "i < candidateCount (rooms s' rc) \<Longrightarrow> getClearResults s' rc i = Inr (counts ! i)"
  using publishResults_Inr [OF assms]
  by (simp_all add: getClearResults_def check_defs storeClearResults_clearResults)

lemma demo_publish_ok:
  "publishResults demo_voted2 1 ''R1'' [7, 9] = Inr demo_published"
proof -
  have "\<not> isl (publishResults demo_voted2 1 ''R1'' [7, 9])"
    by (simp add: publishResults_isl demo_voted2_room)
  then show ?thesis
    by (cases "publishResults demo_voted2 1 ''R1'' [7, 9]") (auto simp: demo_published_def)
qed

section \<open>Candidates of a new room\<close>

lemma candidatesLoop_roomCandidates:
  assumes "candidatesLoop en a rc ns dss imgs is s = Inr s'"
  shows "roomCandidates s' rc j =
     (if candidateCount (rooms s rc) \<le> j \<and> j < candidateCount (rooms s rc) + length is
      then \<lparr>name = ns ! (is ! (j - candidateCount (rooms s rc))),
            Candidate.description = dss ! (is ! (j - candidateCount (rooms s rc))),
            imageUrl = imgs ! (is ! (j - candidateCount (rooms s rc))),
            votes = FHE_asEuint32 en 0, exists = True\<rparr>
      else roomCandidates s rc j)"
  using assms
proof (induction "is" arbitrary: s)
  case Nil
  then show ?case by auto
next
  case (Cons i "is")
  from Cons.prems obtain s1 where
    p: "pushCandidate en a rc (ns ! i) (dss ! i) (imgs ! i) s = Inr s1"
    and l: "candidatesLoop en a rc ns dss imgs is s1 = Inr s'"
    by (auto split: sum.splits)
  show ?case
    using Cons.IH [OF l] pushCandidate_Inr [OF p]
    by (auto simp: nth_Cons')
qed

lemma empty_code_never_exists_after_creation:
  assumes "createRoomWithCandidatesBatch en s a t [] ttl ds maxP endT hasPw pwHash ns dss imgs = Inr s'"
  shows "getCandidate s' [] i = Inl RoomDoesNotExist"
proof -
  from createRoomWithCandidatesBatch_Inr [OF assms(1)] obtain s1 where
    l: "candidatesLoop en a [] ns dss imgs [0..<length ns]
          (storeNewRoom a [] ttl ds maxP endT hasPw pwHash s) = Inr s1"
    and s': "s' = emit (RoomCreated [] a ttl) s1"
    by blast
  from candidatesLoop_Inr [OF l] s'
  show ?thesis
    by (simp add: getCandidate_def check_defs)
qed

section \<open>Vote accounting\<close>

lemma sum_zero_beyond:
  fixes f :: "nat \<Rightarrow> nat"
  assumes "\<forall>i. n \<le> i \<longrightarrow> f i = 0" and "n \<le> m"
  shows "sum f {..<m} = sum f {..<n}"
proof (rule sum.mono_neutral_right)
  show "finite {..<m}" by simp
  show "{..<n} \<subseteq> {..<m}" using assms(2) by auto
  show "\<forall>i\<in>{..<m} - {..<n}. f i = 0" using assms(1) by auto
qed

lemma sum_bump:
  fixes f :: "nat \<Rightarrow> nat"
  assumes "k < n"
  shows "sum (f(k := f k + 1)) {..<n} = sum f {..<n} + 1"
proof -
  have k: "k \<in> {..<n}" using assms by simp
  have "sum (f(k := f k + 1)) {..<n} = (f k + 1) + sum (f(k := f k + 1)) ({..<n} - {k})"
    using sum.remove [OF finite_lessThan k, of "f(k := f k + 1)"] by simp
  also have "sum (f(k := f k + 1)) ({..<n} - {k}) = sum f ({..<n} - {k})"
    by (rule sum.cong) auto
  also have "(f k + 1) + sum f ({..<n} - {k}) = sum f {..<n} + 1"
    using sum.remove [OF finite_lessThan k, of f] by simp
  finally show ?thesis .
qed

lemma all_zero:
  fixes f :: "nat \<Rightarrow> nat"
  assumes "sum f {..<n} = 0" and "\<forall>i. n \<le> i \<longrightarrow> f i = 0"
  shows "f i = 0"
proof (cases "i < n")
  case True
  with assms(1) show ?thesis by simp
next
  case False
  with assms(2) show ?thesis by simp
qed

lemma step_not_vote:
  assumes "step en s a t c = Inr s'" and "\<not> isVote c"
  shows "totalVotes s' = totalVotes s \<and> candidateVotes s' = candidateVotes s
    \<and> hasVoted s' = hasVoted s"
  using assms
  by (cases c) (auto dest!: op_Inr candidatesLoop_Inr pushCandidate_Inr)

lemma step_vote_other_room:
  assumes "step en s a t (Vote rc0 cid ev pr) = Inr s'" and "rc \<noteq> rc0"
  shows "totalVotes s' rc = totalVotes s rc \<and> candidateVotes s' rc = candidateVotes s rc
    \<and> hasVoted s' rc = hasVoted s rc \<and> rooms s' rc = rooms s rc"
  using assms by (auto dest!: vote_Inr)

lemma accounting_unchanged:
  assumes acc: "accounting s rc"
    and tv: "totalVotes s' rc = totalVotes s rc"
    and cv: "candidateVotes s' rc = candidateVotes s rc"
    and hv: "hasVoted s' rc = hasVoted s rc"
    and ex: "code (rooms s rc) \<noteq> [] \<Longrightarrow>
               code (rooms s' rc) \<noteq> [] \<and> candidateCount (rooms s rc) \<le> candidateCount (rooms s' rc)"
  shows "accounting s' rc"
proof (cases "code (rooms s rc) = []")
  case True
  with acc have z: "totalVotes s rc = 0"
    unfolding accounting_def by blast
  from acc have tv0: "totalVotes s rc = sum (candidateVotes s rc) {..<candidateCount (rooms s rc)}"
    unfolding accounting_def by (rule conjunct1)
  have s0: "sum (candidateVotes s rc) {..<candidateCount (rooms s rc)} = 0"
    unfolding tv0 [symmetric] by (rule z)
  from acc have zb: "\<forall>i. candidateCount (rooms s rc) \<le> i \<longrightarrow> candidateVotes s rc i = 0"
    unfolding accounting_def by blast
  have az: "candidateVotes s rc i = 0" for i
    using s0 zb by (rule all_zero)
  from acc have fin: "finite (voters s rc)" and cd: "card (voters s rc) = totalVotes s rc"
    unfolding accounting_def by blast+
  have vs: "voters s' rc = voters s rc"
    using hv by (simp add: voters_def)
  show ?thesis
    unfolding accounting_def vs tv cv using z fin cd az by simp
next
  case False
  from ex [OF False] have e: "code (rooms s' rc) \<noteq> []"
    and le: "candidateCount (rooms s rc) \<le> candidateCount (rooms s' rc)"
    by simp_all
  from acc have zb: "\<forall>i. candidateCount (rooms s rc) \<le> i \<longrightarrow> candidateVotes s rc i = 0"
    unfolding accounting_def by blast
  have "(\<Sum>i<candidateCount (rooms s' rc). candidateVotes s rc i)
      = (\<Sum>i<candidateCount (rooms s rc). candidateVotes s rc i)"
    using zb le by (rule sum_zero_beyond)
  moreover from acc have "totalVotes s rc = (\<Sum>i<candidateCount (rooms s rc). candidateVotes s rc i)"
    unfolding accounting_def by (rule conjunct1)
  ultimately have sm: "(\<Sum>i<candidateCount (rooms s' rc). candidateVotes s rc i) = totalVotes s rc"
    by simp
  from acc have fin: "finite (voters s rc)" and cd: "card (voters s rc) = totalVotes s rc"
    unfolding accounting_def by blast+
  have vs: "voters s' rc = voters s rc"
    using hv by (simp add: voters_def)
  have zb': "\<forall>i. candidateCount (rooms s' rc) \<le> i \<longrightarrow> candidateVotes s rc i = 0"
    using zb le by auto
  show ?thesis
    unfolding accounting_def vs tv cv using sm fin cd zb' e by simp
qed

lemma accounting_vote:
  assumes acc: "accounting s rc" and v: "vote en s a t rc cid ev pr = Inr s'"
  shows "accounting s' rc"
proof -
  note f = vote_Inr [OF v]
  have v': "voters s' rc = insert a (voters s rc)"
    using f by (auto simp: voters_def)
  have na: "a \<notin> voters s rc"
    using f by (simp add: voters_def)
  have fin: "finite (voters s rc)"
    using acc unfolding accounting_def by blast
  have cc: "candidateCount (rooms s' rc) = candidateCount (rooms s rc)"
    using f by simp
  have lt: "cid < candidateCount (rooms s rc)"
    using f by simp
  have cv: "candidateVotes s' rc = (candidateVotes s rc)(cid := candidateVotes s rc cid + 1)"
    using f by simp
  have tv: "totalVotes s' rc = totalVotes s rc + 1"
    using f by simp
  have ex: "code (rooms s' rc) \<noteq> []"
    using f by simp
  have sm: "sum (candidateVotes s' rc) {..<candidateCount (rooms s rc)}
      = sum (candidateVotes s rc) {..<candidateCount (rooms s rc)} + 1"
    unfolding cv using lt by (rule sum_bump)
  have zb: "\<forall>i. candidateCount (rooms s rc) \<le> i \<longrightarrow> candidateVotes s' rc i = 0"
    using acc lt by (auto simp: accounting_def cv)
  have tv0: "totalVotes s rc = sum (candidateVotes s rc) {..<candidateCount (rooms s rc)}"
    and cd: "card (voters s rc) = totalVotes s rc"
    using acc unfolding accounting_def by blast+
  have cd': "card (voters s' rc) = totalVotes s rc + 1"
    unfolding v' using fin na cd by simp
  show ?thesis
    unfolding accounting_def cc using sm zb tv tv0 cd' ex fin v' by simp
qed

lemma step_accounting:
  assumes st: "step en s a t c = Inr s'" and acc: "accounting s rc"
  shows "accounting s' rc"
proof -
  have ex: "code (rooms s' rc) \<noteq> [] \<and> candidateCount (rooms s rc) \<le> candidateCount (rooms s' rc)"
    if "code (rooms s rc) \<noteq> []"
    using step_existing_room [OF st that] that by simp
  show ?thesis
  proof (cases "isVote c")
    case False
    from step_not_vote [OF st False]
    have "totalVotes s' rc = totalVotes s rc" and "candidateVotes s' rc = candidateVotes s rc"
      and "hasVoted s' rc = hasVoted s rc"
      by simp_all
    with acc show ?thesis
      using ex by (rule accounting_unchanged)
  next
    case True
    then obtain rc0 cid ev pr where c: "c = Vote rc0 cid ev pr"
      by (cases c) simp_all
    show ?thesis
    proof (cases "rc = rc0")
      case True
      from st have "vote en s a t rc cid ev pr = Inr s'"
        by (simp add: c True)
      with acc show ?thesis
        by (rule accounting_vote)
    next
      case False
      from step_vote_other_room [OF st [unfolded c] False]
      have "totalVotes s' rc = totalVotes s rc" and "candidateVotes s' rc = candidateVotes s rc"
        and "hasVoted s' rc = hasVoted s rc"
        by simp_all
      with acc show ?thesis
        using ex by (rule accounting_unchanged)
    qed
  qed
qed

lemma apply_tx_accounting: "accounting s rc \<Longrightarrow> accounting (apply_tx en s tx) rc"
proof (cases rule: apply_tx_cases [of en s tx])
  case reverted
  assume "accounting s rc"
  with reverted show ?thesis by simp
next
  case (committed b t c)
  assume "accounting s rc"
  with step_accounting [OF committed(2)] show ?thesis .
qed

lemma run_accounting: "accounting s rc \<Longrightarrow> accounting (run en s txs) rc"
  by (induction txs arbitrary: s) (simp_all add: apply_tx_accounting)

lemma deployed_accounting: "accounting deployed rc"
  by (simp add: accounting_def voters_def deployed_def emptyRoom_def)

section \<open>The closing flag and the registry\<close>

lemma step_closing:
  assumes "step en s a t c = Inr s'" and "closing s rc"
  shows "closing s' rc"
  using assms unfolding closing_def
  by (cases c) (auto dest!: op_Inr candidatesLoop_Inr pushCandidate_Inr split: if_splits)

lemma apply_tx_closing: "closing s rc \<Longrightarrow> closing (apply_tx en s tx) rc"
proof (cases rule: apply_tx_cases [of en s tx])
  case reverted
  assume "closing s rc"
  with reverted show ?thesis by simp
next
  case (committed b t c)
  assume "closing s rc"
  with step_closing [OF committed(2)] show ?thesis .
qed

lemma run_closing: "closing s rc \<Longrightarrow> closing (run en s txs) rc"
  by (induction txs arbitrary: s) (simp_all add: apply_tx_closing)

lemma isClosed_iff_filled_by_join:
  "isClosed (rooms (run en deployed txs) rc) \<longleftrightarrow>
     participantCount (rooms (run en deployed txs) rc) = maxParticipants (rooms (run en deployed txs) rc)
     \<and> 2 \<le> maxParticipants (rooms (run en deployed txs) rc)"
proof -
  have "closing deployed rc"
    by (simp add: closing_def deployed_def emptyRoom_def)
  then have "closing (run en deployed txs) rc"
    by (rule run_closing)
  then show ?thesis
    unfolding closing_def by (rule conjunct1)
qed

lemma step_registry:
  assumes "step en s a t c = Inr s'" and "registry s"
  shows "registry s'"
  using assms unfolding registry_def
  by (cases c) (auto dest!: op_Inr candidatesLoop_Inr pushCandidate_Inr split: if_splits)

lemma apply_tx_registry: "registry s \<Longrightarrow> registry (apply_tx en s tx)"
proof (cases rule: apply_tx_cases [of en s tx])
  case reverted
  assume "registry s"
  with reverted show ?thesis by simp
next
  case (committed b t c)
  assume "registry s"
  with step_registry [OF committed(2)] show ?thesis .
qed

lemma run_registry: "registry s \<Longrightarrow> registry (run en s txs)"
  by (induction txs arbitrary: s) (simp_all add: apply_tx_registry)

lemma registered_inactive_exists:
  assumes "rc \<in> set (roomCodes (run en deployed txs))"
    and "\<not> isActive (rooms (run en deployed txs) rc)"
  shows "code (rooms (run en deployed txs) rc) \<noteq> []"
proof -
  have "registry deployed"
    by (simp add: registry_def deployed_def)
  then have "registry (run en deployed txs)"
    by (rule run_registry)
  with assms show ?thesis
    unfolding registry_def by blast
qed

section \<open>Candidates stay as they were created\<close>

lemma candidatesLoop_keeps_texts:
  assumes "candidatesLoop en a rc0 ns dss imgs is s = Inr s'"
    and "rc \<noteq> rc0 \<or> j < candidateCount (rooms s rc0)"
  shows "roomCandidates s' rc j = roomCandidates s rc j"
  using assms
proof (induction "is" arbitrary: s)
  case Nil
  then show ?case by simp
next
  case (Cons i "is")
  from Cons.prems(1) obtain s1 where
    p: "pushCandidate en a rc0 (ns ! i) (dss ! i) (imgs ! i) s = Inr s1"
    and l: "candidatesLoop en a rc0 ns dss imgs is s1 = Inr s'"
    by (auto split: sum.splits)
  from pushCandidate_Inr [OF p] Cons.prems(2)
  have 1: "roomCandidates s1 rc j = roomCandidates s rc j"
    and 2: "rc \<noteq> rc0 \<or> j < candidateCount (rooms s1 rc0)"
    by auto
  from Cons.IH [OF l 2] 1 show ?case by simp
qed

lemma step_keeps_texts:
  assumes "step en s a t c = Inr s'" and "code (rooms s rc) \<noteq> []"
    and "j < candidateCount (rooms s rc)"
  shows "texts (roomCandidates s' rc j) = texts (roomCandidates s rc j)"
proof (cases c)
  case (CreateRoom rc0 ttl ds maxP endT hasPw pwHash)
  with assms show ?thesis
    by (auto dest!: createRoom_Inr)
next
  case (CreateRoomWithCandidatesBatch rc0 ttl ds maxP endT hasPw pwHash ns dss imgs)
  with assms(1) obtain s1 where e: "code (rooms s rc0) = []"
    and l: "candidatesLoop en a rc0 ns dss imgs [0..<length ns]
              (storeNewRoom a rc0 ttl ds maxP endT hasPw pwHash s) = Inr s1"
    and s': "s' = emit (RoomCreated rc0 a ttl) s1"
    by (auto dest!: createRoomWithCandidatesBatch_Inr)
  from e assms(2) have "rc \<noteq> rc0"
    by auto
  then have "roomCandidates s1 rc j
      = roomCandidates (storeNewRoom a rc0 ttl ds maxP endT hasPw pwHash s) rc j"
    using candidatesLoop_keeps_texts [OF l] by blast
  with s' show ?thesis by simp
next
  case (AddCandidate rc0 nm ds img)
  with assms show ?thesis
    by (auto dest!: addCandidate_Inr pushCandidate_Inr)
next
  case (AddCandidatesBatch rc0 ns dss imgs)
  with assms(1) have l: "candidatesLoop en a rc0 ns dss imgs [0..<length ns] s = Inr s'"
    by (auto dest!: addCandidatesBatch_Inr)
  from assms(3) have "rc \<noteq> rc0 \<or> j < candidateCount (rooms s rc0)"
    by auto
  from candidatesLoop_keeps_texts [OF l this] show ?thesis by simp
next
  case (JoinRoom rc0 pw)
  with assms show ?thesis
    by (auto dest!: joinRoom_Inr)
next
  case (Vote rc0 cid ev pr)
  with assms show ?thesis
    by (auto dest!: vote_Inr simp: texts_def)
next
  case (EndRoom rc0)
  with assms show ?thesis
    by (auto dest!: endRoom_Inr)
next
  case (CheckAndEndRoom rc0)
  with assms show ?thesis
    by (auto dest!: checkAndEndRoom_Inr)
next
  case (PublishResults rc0 counts)
  with assms show ?thesis
    by (auto dest!: publishResults_Inr)
qed

lemma apply_tx_listed: "listed s rc j x \<Longrightarrow> listed (apply_tx en s tx) rc j x"
proof (cases rule: apply_tx_cases [of en s tx])
  case reverted
  assume "listed s rc j x"
  with reverted show ?thesis by simp
next
  case (committed b t c)
  assume l: "listed s rc j x"
  then have e: "code (rooms s rc) \<noteq> []" and lt: "j < candidateCount (rooms s rc)"
    and tx: "texts (roomCandidates s rc j) = x"
    by (simp_all add: listed_def)
  from step_existing_room [OF committed(2) e] step_keeps_texts [OF committed(2) e lt] e lt tx
  show ?thesis
    by (simp add: listed_def)
qed

lemma run_listed: "listed s rc j x \<Longrightarrow> listed (run en s txs) rc j x"
  by (induction txs arbitrary: s) (simp_all add: apply_tx_listed)

lemma listed_getCandidate: "listed s rc j x \<Longrightarrow> getCandidate s rc j = Inr x"
  by (simp add: listed_def getCandidate_def check_defs texts_def)

lemma roundtrip_for_nonempty_code:
  assumes "createRoomWithCandidatesBatch en s a t rc ttl ds maxP endT hasPw pwHash ns dss imgs = Inr s'"
    and "rc \<noteq> []" and "i < length ns"
  shows "getCandidate (run en s' txs) rc i = Inr (ns ! i, dss ! i, imgs ! i)"
proof -
  from createRoomWithCandidatesBatch_Inr [OF assms(1)] obtain s1 where
    l: "candidatesLoop en a rc ns dss imgs [0..<length ns]
          (storeNewRoom a rc ttl ds maxP endT hasPw pwHash s) = Inr s1"
    and s': "s' = emit (RoomCreated rc a ttl) s1"
    by blast
  from candidatesLoop_Inr [OF l] candidatesLoop_roomCandidates [OF l, of i] assms(2,3) s'
  have "listed s' rc i (ns ! i, dss ! i, imgs ! i)"
    by (simp add: listed_def texts_def)
  then have "listed (run en s' txs) rc i (ns ! i, dss ! i, imgs ! i)"
    by (rule run_listed)
  then show ?thesis
    by (rule listed_getCandidate)
qed

section \<open>The properties\<close>

text \<open>
  C1. After an identity's successful vote in a room, and whatever transactions follow, every
  further vote of that identity on that room fails with "Already voted in this room"; the
  failed transaction leaves the storage, hence \<open>totalVotes\<close> and every
  \<open>candidateVotes\<close> entry of the room, as it was.
\<close>

theorem C1_second_vote_already_voted:
  assumes "vote en s a t rc cid ev pr = Inr s1"
  shows "vote en (run en s1 txs) a t' rc cid' ev' pr' = Inl AlreadyVoted
    \<and> apply_tx en (run en s1 txs) (a, t', Vote rc cid' ev' pr') = run en s1 txs
    \<and> totalVotes (apply_tx en (run en s1 txs) (a, t', Vote rc cid' ev' pr')) rc
        = totalVotes (run en s1 txs) rc
    \<and> candidateVotes (apply_tx en (run en s1 txs) (a, t', Vote rc cid' ev' pr')) rc
        = candidateVotes (run en s1 txs) rc"
proof -
  have "voted_in (run en s1 txs) rc a"
    using assms by (intro run_voted_in vote_voted_in)
  then have "vote en (run en s1 txs) a t' rc cid' ev' pr' = Inl AlreadyVoted"
    by (rule voted_in_vote)
  then show ?thesis by simp
qed

theorem C1_second_vote_already_voted_witness:
  "vote demo_env demo_state 1 30 ''R1'' 0 1 ''p''
     = Inr (apply_tx demo_env demo_state (1, 30, Vote ''R1'' 0 1 ''p''))
   \<and> vote demo_env
        (run demo_env (apply_tx demo_env demo_state (1, 30, Vote ''R1'' 0 1 ''p''))
           [(2, 40, Vote ''R1'' 1 1 ''p'')])
        1 50 ''R1'' 1 1 ''q'' = Inl AlreadyVoted"
  using demo_vote_ok C1_second_vote_already_voted [OF demo_vote_ok, of "[(2, 40, Vote ''R1'' 1 1 ''p'')]" 50 1 1 "''q''"]
  by blast

text \<open>
  C2. When a successful vote brings \<open>totalVotes\<close> of the room to \<open>maxParticipants\<close> or
  more, the state it returns has \<open>isActive = False\<close>, and after any further transactions
  every vote on the room, by anyone, fails and leaves the storage unchanged.
\<close>

theorem C2_auto_close:
  assumes "vote en s a t rc cid ev pr = Inr s1"
    and "totalVotes s1 rc \<ge> maxParticipants (rooms s1 rc)"
  shows "\<not> isActive (rooms s1 rc)
    \<and> vote en (run en s1 txs) b t' rc cid' ev' pr'
         \<in> {Inl NotAParticipant, Inl AlreadyVoted, Inl RoomIsNotActive}
    \<and> apply_tx en (run en s1 txs) (b, t', Vote rc cid' ev' pr') = run en s1 txs"
proof -
  have e: "ended s1 rc"
    using assms by (rule vote_closes)
  then have "ended (run en s1 txs) rc"
    by (rule run_ended)
  then have f: "vote en (run en s1 txs) b t' rc cid' ev' pr'
         \<in> {Inl NotAParticipant, Inl AlreadyVoted, Inl RoomIsNotActive}"
    by (rule ended_vote_fails)
  then have "apply_tx en (run en s1 txs) (b, t', Vote rc cid' ev' pr') = run en s1 txs"
    by auto
  with e f show ?thesis by (simp add: ended_def)
qed

theorem C2_auto_close_witness:
  "vote demo_env demo_voted1 2 40 ''R1'' 1 1 ''p'' = Inr demo_voted2
   \<and> totalVotes demo_voted2 ''R1'' \<ge> maxParticipants (rooms demo_voted2 ''R1'')
   \<and> \<not> isActive (rooms demo_voted2 ''R1'')
   \<and> vote demo_env (run demo_env demo_voted2 [(1, 50, EndRoom ''R1'')]) 3 60 ''R1'' 0 1 ''p''
        \<in> {Inl NotAParticipant, Inl AlreadyVoted, Inl RoomIsNotActive}"
proof -
  have h: "totalVotes demo_voted2 ''R1'' \<ge> maxParticipants (rooms demo_voted2 ''R1'')"
    by (simp add: demo_voted2_room demo_voted2_totalVotes)
  show ?thesis
    using demo_vote2_ok h
      C2_auto_close [OF demo_vote2_ok h, of "[(1, 50, EndRoom ''R1'')]" 3 60 0 1 "''p''"]
    by blast
qed

text \<open>
  C3. A room created for a single participant is full from the start and yet not closed:
  after \<open>createRoom\<close> with \<open>maxParticipants = 1\<close> on the deployed contract the room is in
  the registry with \<open>participantCount = maxParticipants = 1\<close> and \<open>isClosed = False\<close>.
  Only \<open>joinRoom\<close> sets \<open>isClosed\<close> when the count reaches the maximum; the two creation
  functions set \<open>participantCount\<close> to 1 and never test it.
  (In every state reached from deployment \<open>isClosed\<close> holds exactly when the room is full
  and admits at least two participants: \<open>isClosed_iff_filled_by_join\<close>.)
\<close>

theorem C3_single_participant_room_not_closed:
  "createRoom deployed 1 10 ''S1'' ''T'' ''D'' 1 100 False 0 = Inr demo_single_created
   \<and> ''S1'' \<in> set (roomCodes demo_single_created)
   \<and> participantCount (rooms demo_single_created ''S1'') = 1
   \<and> maxParticipants (rooms demo_single_created ''S1'') = 1
   \<and> \<not> isClosed (rooms demo_single_created ''S1'')"
  by (simp add: demo_single_created_def eval_defs)

text \<open>
  C4. In every state that transactions make of the deployed contract, and for every room
  code, \<open>participantCount \<le> maxParticipants\<close>; and every single transaction (any of the
  nine state-changing calls, by any caller at any time, committed or reverted) keeps the
  bound of a state that has it.
\<close>

theorem C4_participantCount_le_maxParticipants:
  "participantCount (rooms (run en deployed txs) rc) \<le> maxParticipants (rooms (run en deployed txs) rc)
   \<and> (participantCount (rooms s rc) \<le> maxParticipants (rooms s rc) \<longrightarrow>
        participantCount (rooms (apply_tx en s tx) rc) \<le> maxParticipants (rooms (apply_tx en s tx) rc))"
  using run_bound [OF deployed_bound] apply_tx_bound by blast

theorem C4_participantCount_le_maxParticipants_witness:
  "participantCount (rooms demo_state ''R1'') \<le> maxParticipants (rooms demo_state ''R1'')
   \<and> participantCount (rooms (apply_tx demo_env demo_state (3, 25, JoinRoom ''R1'' [])) ''R1'')
        \<le> maxParticipants (rooms (apply_tx demo_env demo_state (3, 25, JoinRoom ''R1'' [])) ''R1'')
   \<and> participantCount (rooms (apply_tx demo_env demo_state (3, 25, JoinRoom ''R1'' [])) ''R1'') = 2"
proof -
  have h: "participantCount (rooms demo_state ''R1'') \<le> maxParticipants (rooms demo_state ''R1'')"
    by (simp add: demo_rooms)
  have e: "participantCount (rooms (apply_tx demo_env demo_state (3, 25, JoinRoom ''R1'' [])) ''R1'') = 2"
    by (simp only: demo_join3) (simp add: demo_rooms)
  from C4_participantCount_le_maxParticipants
        [of demo_env "[]" "''R1''" demo_state "(3, 25, JoinRoom ''R1'' [])"] h e
  show ?thesis by blast
qed

text \<open>
  C5. \<open>joinRoom\<close> fails with "Invalid password" exactly when the room exists, is active,
  has \<open>endTime\<close> after the current time, is not closed, the caller is not yet a participant,
  the room is not full, it has a password, and the hash of the supplied password differs
  from the stored one. The earlier gates answer first, in the order existence, active,
  time, closed, already participant, capacity; and a failed call leaves the storage, hence
  \<open>participantCount\<close>, unchanged. (The room counts as ended from \<open>endTime\<close> on: the
  source requires \<open>endTime > block.timestamp\<close>.)
\<close>

theorem C5_joinRoom_invalid_password:
  "(joinRoom en s a t rc pw = Inl InvalidPassword \<longleftrightarrow>
      roomExists s rc = None \<and> isActive (rooms s rc) \<and> endTime (rooms s rc) > t
      \<and> \<not> isClosed (rooms s rc) \<and> \<not> isParticipant s rc a
      \<and> participantCount (rooms s rc) < maxParticipants (rooms s rc)
      \<and> hasPassword (rooms s rc) \<and> keccak256 en pw \<noteq> passwordHash (rooms s rc))
   \<and> (roomExists s rc \<noteq> None \<longrightarrow> joinRoom en s a t rc pw = Inl RoomDoesNotExist)
   \<and> (roomExists s rc = None \<and> \<not> isActive (rooms s rc) \<longrightarrow>
        joinRoom en s a t rc pw = Inl RoomIsNotActive)
   \<and> (roomExists s rc = None \<and> isActive (rooms s rc) \<and> endTime (rooms s rc) \<le> t \<longrightarrow>
        joinRoom en s a t rc pw = Inl RoomHasEnded)
   \<and> (roomExists s rc = None \<and> isActive (rooms s rc) \<and> endTime (rooms s rc) > t
        \<and> isClosed (rooms s rc) \<longrightarrow>
        joinRoom en s a t rc pw = Inl RoomIsClosed)
   \<and> (roomExists s rc = None \<and> roomActive s t rc = None \<and> isParticipant s rc a \<longrightarrow>
        joinRoom en s a t rc pw = Inl AlreadyAParticipant)
   \<and> (roomExists s rc = None \<and> roomActive s t rc = None \<and> \<not> isParticipant s rc a
        \<and> maxParticipants (rooms s rc) \<le> participantCount (rooms s rc) \<longrightarrow>
        joinRoom en s a t rc pw = Inl RoomIsFull)
   \<and> (isl (joinRoom en s a t rc pw) \<longrightarrow>
        apply_tx en s (a, t, JoinRoom rc pw) = s
        \<and> participantCount (rooms (apply_tx en s (a, t, JoinRoom rc pw)) rc)
            = participantCount (rooms s rc))"
proof (intro conjI)
  show "joinRoom en s a t rc pw = Inl InvalidPassword \<longleftrightarrow>
      roomExists s rc = None \<and> isActive (rooms s rc) \<and> endTime (rooms s rc) > t
      \<and> \<not> isClosed (rooms s rc) \<and> \<not> isParticipant s rc a
      \<and> participantCount (rooms s rc) < maxParticipants (rooms s rc)
      \<and> hasPassword (rooms s rc) \<and> keccak256 en pw \<noteq> passwordHash (rooms s rc)"
    by (auto simp: joinRoom_def check_defs Let_def split: if_splits)
  show "isl (joinRoom en s a t rc pw) \<longrightarrow>
        apply_tx en s (a, t, JoinRoom rc pw) = s
        \<and> participantCount (rooms (apply_tx en s (a, t, JoinRoom rc pw)) rc)
            = participantCount (rooms s rc)"
    by (cases "joinRoom en s a t rc pw") simp_all
qed (simp_all add: joinRoom_def check_defs)

theorem C5_joinRoom_invalid_password_witness:
  "joinRoom demo_env demo_pw_state 2 20 ''P1'' ''xyz'' = Inl InvalidPassword
   \<and> participantCount (rooms (apply_tx demo_env demo_pw_state (2, 20, JoinRoom ''P1'' ''xyz'')) ''P1'') = 1
   \<and> joinRoom demo_env demo_pw_state 1 20 ''P1'' ''xyz'' = Inl AlreadyAParticipant
   \<and> joinRoom demo_env demo_pw_state 2 100 ''P1'' ''xyz'' = Inl RoomHasEnded
   \<and> joinRoom demo_env demo_pw_state 2 20 ''Q'' ''xyz'' = Inl RoomDoesNotExist"
proof -
  have k: "keccak256 demo_env ''xyz'' \<noteq> passwordHash (rooms demo_pw_state ''P1'')"
    by (simp add: demo_pw_room demo_env_def)
  have q: "roomExists demo_pw_state ''Q'' \<noteq> None"
    by (simp add: demo_pw_state_def eval_defs)
  have x: "roomExists demo_pw_state ''P1'' = None"
    by (simp add: demo_pw_room)
  have r: "roomActive demo_pw_state 20 ''P1'' = None"
    by (simp add: roomActive_def demo_pw_room)
  have 1: "joinRoom demo_env demo_pw_state 2 20 ''P1'' ''xyz'' = Inl InvalidPassword"
    using C5_joinRoom_invalid_password [of demo_env demo_pw_state 2 20 "''P1''" "''xyz''"]
      k x demo_pw_participant(2)
    by (simp add: demo_pw_room)
  have 2: "participantCount (rooms (apply_tx demo_env demo_pw_state (2, 20, JoinRoom ''P1'' ''xyz'')) ''P1'') = 1"
    using C5_joinRoom_invalid_password [of demo_env demo_pw_state 2 20 "''P1''" "''xyz''"] 1
    by (simp add: demo_pw_room)
  have 3: "joinRoom demo_env demo_pw_state 1 20 ''P1'' ''xyz'' = Inl AlreadyAParticipant"
    using C5_joinRoom_invalid_password [of demo_env demo_pw_state 1 20 "''P1''" "''xyz''"]
      x r demo_pw_participant(1)
    by blast
  have 4: "joinRoom demo_env demo_pw_state 2 100 ''P1'' ''xyz'' = Inl RoomHasEnded"
    using C5_joinRoom_invalid_password [of demo_env demo_pw_state 2 100 "''P1''" "''xyz''"] x
    by (simp add: demo_pw_room)
  have 5: "joinRoom demo_env demo_pw_state 2 20 ''Q'' ''xyz'' = Inl RoomDoesNotExist"
    using C5_joinRoom_invalid_password [of demo_env demo_pw_state 2 20 "''Q''" "''xyz''"] q
    by blast
  from 1 2 3 4 5 show ?thesis by blast
qed

text \<open>
  C6. Take a room that the contract's \<open>roomExists\<close> accepts, or a code in the registry of a
  state that transactions made of the deployed contract. Once its \<open>isActive\<close> is \<open>False\<close>
  it stays \<open>False\<close> along every sequence of transactions, so the flag falls at most once
  and never rises again; and in every such state each of the three deactivating operations
  (\<open>vote\<close>, \<open>endRoom\<close>, \<open>checkAndEndRoom\<close>) fails.
\<close>

theorem C6_isActive_never_reverses:
  assumes "roomExists s rc = None \<or> (s = run en deployed txs0 \<and> rc \<in> set (roomCodes s))"
    and "\<not> isActive (rooms s rc)"
  shows "\<not> isActive (rooms (run en s txs) rc)
    \<and> vote en (run en s txs) a t rc cid ev pr
         \<in> {Inl NotAParticipant, Inl AlreadyVoted, Inl RoomIsNotActive}
    \<and> endRoom (run en s txs) a rc \<in> {Inl OnlyCreatorCanEndRoom, Inl RoomAlreadyEnded}
    \<and> checkAndEndRoom (run en s txs) t rc = Inl RoomAlreadyEnded"
proof -
  have "code (rooms s rc) \<noteq> []"
    using assms registered_inactive_exists [of rc en txs0] by auto
  then have "ended s rc"
    using assms(2) by (simp add: ended_def)
  then have e: "ended (run en s txs) rc"
    by (rule run_ended)
  have "endRoom (run en s txs) a rc \<in> {Inl OnlyCreatorCanEndRoom, Inl RoomAlreadyEnded}"
    using e by (simp add: ended_def endRoom_def check_defs)
  with e ended_vote_fails [OF e] ended_checkAndEndRoom [OF e] show ?thesis
    by (simp add: ended_def)
qed

theorem C6_isActive_never_reverses_witness:
  "roomExists demo_voted2 ''R1'' = None
   \<and> \<not> isActive (rooms demo_voted2 ''R1'')
   \<and> \<not> isActive (rooms (run demo_env demo_voted2
          [(1, 50, CreateRoom ''R1'' ''T'' ''D'' 5 200 False 0),
           (1, 60, AddCandidate ''R1'' ''C'' ''c'' ''z'')]) ''R1'')
   \<and> checkAndEndRoom (run demo_env demo_voted2
          [(1, 50, CreateRoom ''R1'' ''T'' ''D'' 5 200 False 0),
           (1, 60, AddCandidate ''R1'' ''C'' ''c'' ''z'')]) 150 ''R1'' = Inl RoomAlreadyEnded"
proof -
  have h1: "roomExists demo_voted2 ''R1'' = None"
    by (simp add: demo_voted2_room)
  then have h1': "roomExists demo_voted2 ''R1'' = None
      \<or> (demo_voted2 = run demo_env deployed [] \<and> ''R1'' \<in> set (roomCodes demo_voted2))"
    by (rule disjI1)
  have h2: "\<not> isActive (rooms demo_voted2 ''R1'')"
    by (simp add: demo_voted2_room)
  show ?thesis
    using h1 h2 C6_isActive_never_reverses [OF h1' h2, of
        "[(1, 50, CreateRoom ''R1'' ''T'' ''D'' 5 200 False 0),
          (1, 60, AddCandidate ''R1'' ''C'' ''c'' ''z'')]" 1 150 0 1 "''p''"]
    by blast
qed

text \<open>
  C7. On an existing active room, \<open>checkAndEndRoom\<close> from any caller \<open>a\<close> fails with
  "Room has not ended yet" while the time is before \<open>endTime\<close>; at or after \<open>endTime\<close> it
  succeeds and clears \<open>isActive\<close>, and from then on, whatever transactions follow, every
  further \<open>checkAndEndRoom\<close> on the room fails with "Room already ended".
\<close>

theorem C7_checkAndEndRoom:
  assumes "roomExists s rc = None" and "isActive (rooms s rc)"
  shows "(t < endTime (rooms s rc) \<longrightarrow>
            step en s a t (CheckAndEndRoom rc) = Inl RoomHasNotEndedYet)
    \<and> (endTime (rooms s rc) \<le> t \<longrightarrow>
          step en s a t (CheckAndEndRoom rc)
            = Inr (emit (RoomEnded rc) (setRoom rc ((rooms s rc)\<lparr>isActive := False\<rparr>) s))
          \<and> \<not> isActive (rooms (apply_tx en s (a, t, CheckAndEndRoom rc)) rc)
          \<and> step en (run en (apply_tx en s (a, t, CheckAndEndRoom rc)) txs) b t'
                (CheckAndEndRoom rc) = Inl RoomAlreadyEnded)"
proof (intro conjI impI)
  assume "t < endTime (rooms s rc)"
  with assms show "step en s a t (CheckAndEndRoom rc) = Inl RoomHasNotEndedYet"
    by (simp add: checkAndEndRoom_def check_defs)
next
  assume le: "endTime (rooms s rc) \<le> t"
  with assms show ok: "step en s a t (CheckAndEndRoom rc)
      = Inr (emit (RoomEnded rc) (setRoom rc ((rooms s rc)\<lparr>isActive := False\<rparr>) s))"
    by (simp add: checkAndEndRoom_def check_defs)
  then have e: "ended (apply_tx en s (a, t, CheckAndEndRoom rc)) rc"
    using assms by (simp add: ended_def)
  then show "\<not> isActive (rooms (apply_tx en s (a, t, CheckAndEndRoom rc)) rc)"
    by (simp add: ended_def)
  from e have "ended (run en (apply_tx en s (a, t, CheckAndEndRoom rc)) txs) rc"
    by (rule run_ended)
  then show "step en (run en (apply_tx en s (a, t, CheckAndEndRoom rc)) txs) b t'
                (CheckAndEndRoom rc) = Inl RoomAlreadyEnded"
    by (simp add: ended_checkAndEndRoom)
qed

theorem C7_checkAndEndRoom_witness:
  "roomExists demo_state ''R1'' = None
   \<and> isActive (rooms demo_state ''R1'')
   \<and> 50 < endTime (rooms demo_state ''R1'')
   \<and> step demo_env demo_state 3 50 (CheckAndEndRoom ''R1'') = Inl RoomHasNotEndedYet
   \<and> endTime (rooms demo_state ''R1'') \<le> 100
   \<and> \<not> isActive (rooms (apply_tx demo_env demo_state (3, 100, CheckAndEndRoom ''R1'')) ''R1'')
   \<and> step demo_env (run demo_env (apply_tx demo_env demo_state (3, 100, CheckAndEndRoom ''R1'')) [])
        3 101 (CheckAndEndRoom ''R1'') = Inl RoomAlreadyEnded"
proof -
  have h1: "roomExists demo_state ''R1'' = None"
    by (simp add: demo_rooms)
  have h2: "isActive (rooms demo_state ''R1'')"
    by (simp add: demo_rooms)
  have h3: "50 < endTime (rooms demo_state ''R1'')" "endTime (rooms demo_state ''R1'') \<le> 100"
    by (simp_all add: demo_rooms)
  from C7_checkAndEndRoom [OF h1 h2, of 50 demo_env 3] h3(1)
  have a: "step demo_env demo_state 3 50 (CheckAndEndRoom ''R1'') = Inl RoomHasNotEndedYet"
    by blast
  from C7_checkAndEndRoom [OF h1 h2, of 100 demo_env 3 "[]" 3 101] h3(2)
  have b: "\<not> isActive (rooms (apply_tx demo_env demo_state (3, 100, CheckAndEndRoom ''R1'')) ''R1'')
    \<and> step demo_env (run demo_env (apply_tx demo_env demo_state (3, 100, CheckAndEndRoom ''R1'')) [])
        3 101 (CheckAndEndRoom ''R1'') = Inl RoomAlreadyEnded"
    by blast
  from h1 h2 h3 a b show ?thesis by blast
qed

text \<open>
  C8. \<open>publishResults\<close> fails when the caller is not the creator, when \<open>isActive\<close> is still
  set, and when the array's length differs from \<open>candidateCount\<close>. It succeeds exactly when
  the room exists, the caller is the creator, the room has ended and the length fits: no
  other part of the storage (not \<open>candidateVotes\<close>, not the encrypted totals) is consulted.
  After a success \<open>resultsPublished\<close> is set and \<open>getClearResults\<close> returns the supplied
  count for every index below \<open>candidateCount\<close>; a further call with any other array of that
  length succeeds too and its counts replace the earlier ones.
\<close>

theorem C8_publishResults:
  "(a \<noteq> creator (rooms s rc) \<longrightarrow>
      publishResults s a rc counts \<in> {Inl RoomDoesNotExist, Inl OnlyCreatorCanPublishResults})
   \<and> (isActive (rooms s rc) \<longrightarrow>
      publishResults s a rc counts
        \<in> {Inl RoomDoesNotExist, Inl OnlyCreatorCanPublishResults, Inl RoomMustBeEnded})
   \<and> (length counts \<noteq> candidateCount (rooms s rc) \<longrightarrow>
      publishResults s a rc counts
        \<in> {Inl RoomDoesNotExist, Inl OnlyCreatorCanPublishResults, Inl RoomMustBeEnded,
            Inl InvalidCandidateVotesLength})
   \<and> (isl (publishResults s a rc counts) \<longleftrightarrow>
        \<not> (roomExists s rc = None \<and> a = creator (rooms s rc) \<and> \<not> isActive (rooms s rc)
           \<and> length counts = candidateCount (rooms s rc)))
   \<and> (publishResults s a rc counts = Inr s' \<longrightarrow>
        resultsPublished s' rc
        \<and> (\<forall>i < candidateCount (rooms s' rc). getClearResults s' rc i = Inr (counts ! i))
        \<and> (length counts2 = length counts \<longrightarrow>
             (\<exists>s''. publishResults s' a rc counts2 = Inr s''
                \<and> resultsPublished s'' rc
                \<and> (\<forall>i < candidateCount (rooms s'' rc).
                      getClearResults s'' rc i = Inr (counts2 ! i)))))"
proof (intro conjI impI)
  show "isl (publishResults s a rc counts) \<longleftrightarrow>
        \<not> (roomExists s rc = None \<and> a = creator (rooms s rc) \<and> \<not> isActive (rooms s rc)
           \<and> length counts = candidateCount (rooms s rc))"
    by (rule publishResults_isl)
next
  assume p: "publishResults s a rc counts = Inr s'"
  show "resultsPublished s' rc"
    using p by (rule publishResults_published)
  show "\<forall>i < candidateCount (rooms s' rc). getClearResults s' rc i = Inr (counts ! i)"
    using publishResults_published(3) [OF p] by blast
  assume l: "length counts2 = length counts"
  have "\<not> isl (publishResults s a rc counts)"
    using p by simp
  then have "\<not> isl (publishResults s' a rc counts2)"
    using l publishResults_published(2) [OF p]
    by (simp add: publishResults_isl roomExists_def)
  then obtain s'' where q: "publishResults s' a rc counts2 = Inr s''"
    by (cases "publishResults s' a rc counts2") auto
  show "\<exists>s''. publishResults s' a rc counts2 = Inr s''
                \<and> resultsPublished s'' rc
                \<and> (\<forall>i < candidateCount (rooms s'' rc).
                      getClearResults s'' rc i = Inr (counts2 ! i))"
    using q publishResults_published(1) [OF q] publishResults_published(3) [OF q] by blast
qed (simp_all add: publishResults_def check_defs)

theorem C8_publishResults_witness:
  "publishResults demo_voted2 1 ''R1'' [7, 9] = Inr demo_published
   \<and> resultsPublished demo_published ''R1''
   \<and> getClearResults demo_published ''R1'' 1 = Inr 9
   \<and> (\<exists>s''. publishResults demo_published 1 ''R1'' [0, 5] = Inr s''
            \<and> getClearResults s'' ''R1'' 1 = Inr 5)
   \<and> publishResults demo_voted2 2 ''R1'' [7, 9] = Inl OnlyCreatorCanPublishResults
   \<and> publishResults demo_state 1 ''R1'' [7, 9] = Inl RoomMustBeEnded
   \<and> publishResults demo_voted2 1 ''R1'' [7, 9, 4] = Inl InvalidCandidateVotesLength"
proof -
  let ?s' = demo_published
  note t = C8_publishResults [of 1 demo_voted2 "''R1''" "[7, 9]" ?s' "[0, 5]",
      THEN conjunct2, THEN conjunct2, THEN conjunct2, THEN conjunct2, THEN mp,
      OF demo_publish_ok]
  have len: "length [0, 5 :: nat] = length [7, 9 :: nat]"
    by simp
  have cc: "candidateCount (rooms ?s' ''R1'') = 2"
    using publishResults_published(2) [OF demo_publish_ok] by (simp add: demo_voted2_room)
  have 1: "resultsPublished ?s' ''R1''"
    using t by (rule conjunct1)
  have "\<forall>i < candidateCount (rooms ?s' ''R1''). getClearResults ?s' ''R1'' i = Inr ([7, 9] ! i)"
    using t by (elim conjE)
  then have 2: "getClearResults ?s' ''R1'' 1 = Inr 9"
    by (simp add: cc)
  have "\<exists>s''. publishResults ?s' 1 ''R1'' [0, 5] = Inr s''
           \<and> resultsPublished s'' ''R1''
           \<and> (\<forall>i < candidateCount (rooms s'' ''R1''). getClearResults s'' ''R1'' i = Inr ([0, 5] ! i))"
    using t [THEN conjunct2, THEN conjunct2, THEN mp, OF len] .
  then obtain s'' where q: "publishResults ?s' 1 ''R1'' [0, 5] = Inr s''"
    and g: "\<forall>i < candidateCount (rooms s'' ''R1''). getClearResults s'' ''R1'' i = Inr ([0, 5] ! i)"
    by blast
  have "candidateCount (rooms s'' ''R1'') = 2"
    using publishResults_published(2) [OF q] cc by simp
  with g have "getClearResults s'' ''R1'' 1 = Inr 5"
    by simp
  with q have 3: "\<exists>s''. publishResults ?s' 1 ''R1'' [0, 5] = Inr s'' \<and> getClearResults s'' ''R1'' 1 = Inr 5"
    by blast
  have 4: "publishResults demo_voted2 2 ''R1'' [7, 9] = Inl OnlyCreatorCanPublishResults"
    using C8_publishResults [of 2 demo_voted2 "''R1''" "[7, 9]"]
    by (simp add: publishResults_def check_defs demo_voted2_room)
  have 5: "publishResults demo_state 1 ''R1'' [7, 9] = Inl RoomMustBeEnded"
    using C8_publishResults [of 1 demo_state "''R1''" "[7, 9]"]
    by (simp add: publishResults_def check_defs demo_rooms)
  have 6: "publishResults demo_voted2 1 ''R1'' [7, 9, 4] = Inl InvalidCandidateVotesLength"
    using C8_publishResults [of 1 demo_voted2 "''R1''" "[7, 9, 4]"]
    by (simp add: publishResults_def check_defs demo_voted2_room)
  from demo_publish_ok 1 2 3 4 5 6 show ?thesis by blast
qed

text \<open>
  C9. The round trip from \<open>createRoomWithCandidatesBatch\<close> to \<open>getCandidate\<close> fails for the
  empty room code: on the deployed contract the batch creation with code \<open>''''\<close> and the
  candidates A and B succeeds, since the stored code is empty and passes the "Room code
  already exists" check, and afterwards \<open>getCandidate\<close> reverts with "Room does not exist"
  at both indices, since \<open>roomExists\<close> takes a room with an empty code for absent.
  (For every non-empty code the round trip holds, also after any further transactions:
  \<open>roundtrip_for_nonempty_code\<close>.)
\<close>

theorem C9_empty_code_breaks_roundtrip:
  "createRoomWithCandidatesBatch demo_env deployed 1 10 [] ''T'' ''D'' 2 100 False 0
       [''A'', ''B''] [''a'', ''b''] [''x'', ''y''] = Inr demo_empty_created
   \<and> getCandidate demo_empty_created [] 0 = Inl RoomDoesNotExist
   \<and> getCandidate demo_empty_created [] 1 = Inl RoomDoesNotExist"
proof -
  have "\<exists>s'. createRoomWithCandidatesBatch demo_env deployed 1 10 [] ''T'' ''D'' 2 100 False 0
       [''A'', ''B''] [''a'', ''b''] [''x'', ''y''] = Inr s'"
    by (simp add: eval_defs)
  then obtain s' where ok: "createRoomWithCandidatesBatch demo_env deployed 1 10 [] ''T'' ''D'' 2 100
       False 0 [''A'', ''B''] [''a'', ''b''] [''x'', ''y''] = Inr s'"
    by blast
  then have eq: "demo_empty_created = s'"
    by (simp add: demo_empty_created_def)
  from empty_code_never_exists_after_creation [OF ok] ok eq show ?thesis
    by simp
qed

text \<open>
  C10. In every state that transactions make of the deployed contract and for every room
  code, \<open>totalVotes\<close> equals the sum of \<open>candidateVotes\<close> over the indices below
  \<open>candidateCount\<close> and equals the number of identities whose \<open>hasVoted\<close> flag is set (a
  finite set). A successful vote adds one to \<open>totalVotes\<close> of its room, one to the
  \<open>candidateVotes\<close> entry of its candidate and to no other, and the caller, who was not
  a voter, to the voters; the counters and voters of other rooms stay. A transaction that
  is not a vote changes none of the three tables, and a reverted transaction changes
  nothing.
\<close>

theorem C10_vote_accounting:
  "totalVotes (run en deployed txs) rc
     = (\<Sum>i<candidateCount (rooms (run en deployed txs) rc). candidateVotes (run en deployed txs) rc i)
   \<and> finite (voters (run en deployed txs) rc)
   \<and> totalVotes (run en deployed txs) rc = card (voters (run en deployed txs) rc)
   \<and> (vote en s a t rc cid ev pr = Inr s' \<longrightarrow>
        totalVotes s' rc = totalVotes s rc + 1
        \<and> candidateVotes s' rc cid = candidateVotes s rc cid + 1
        \<and> (\<forall>j. j \<noteq> cid \<longrightarrow> candidateVotes s' rc j = candidateVotes s rc j)
        \<and> a \<notin> voters s rc \<and> voters s' rc = insert a (voters s rc)
        \<and> (\<forall>r. r \<noteq> rc \<longrightarrow> totalVotes s' r = totalVotes s r
               \<and> candidateVotes s' r = candidateVotes s r \<and> voters s' r = voters s r))
   \<and> (\<not> isVote c \<longrightarrow>
        totalVotes (apply_tx en s (b, t, c)) = totalVotes s
        \<and> candidateVotes (apply_tx en s (b, t, c)) = candidateVotes s
        \<and> hasVoted (apply_tx en s (b, t, c)) = hasVoted s)
   \<and> (isl (step en s b t c) \<longrightarrow> apply_tx en s (b, t, c) = s)"
proof (intro conjI impI allI)
  have acc: "accounting (run en deployed txs) rc"
    using deployed_accounting by (rule run_accounting)
  then show "totalVotes (run en deployed txs) rc
     = (\<Sum>i<candidateCount (rooms (run en deployed txs) rc). candidateVotes (run en deployed txs) rc i)"
    and "finite (voters (run en deployed txs) rc)"
    and "totalVotes (run en deployed txs) rc = card (voters (run en deployed txs) rc)"
    by (simp_all add: accounting_def)
next
  assume nv: "\<not> isVote c"
  have "totalVotes (apply_tx en s (b, t, c)) = totalVotes s
        \<and> candidateVotes (apply_tx en s (b, t, c)) = candidateVotes s
        \<and> hasVoted (apply_tx en s (b, t, c)) = hasVoted s"
  proof (cases "step en s b t c")
    case (Inl e)
    then show ?thesis by simp
  next
    case (Inr s1)
    with step_not_vote [OF Inr nv] show ?thesis by simp
  qed
  then show "totalVotes (apply_tx en s (b, t, c)) = totalVotes s"
    and "candidateVotes (apply_tx en s (b, t, c)) = candidateVotes s"
    and "hasVoted (apply_tx en s (b, t, c)) = hasVoted s"
    by simp_all
next
  assume "isl (step en s b t c)"
  then show "apply_tx en s (b, t, c) = s"
    by (cases "step en s b t c") simp_all
next
  assume v: "vote en s a t rc cid ev pr = Inr s'"
  note f = vote_Inr [OF v]
  from f have hv: "hasVoted s' = (hasVoted s)(rc := (hasVoted s rc)(a := True))"
    and tv: "totalVotes s' = (totalVotes s)(rc := totalVotes s rc + 1)"
    and cv: "candidateVotes s' = (candidateVotes s)
               (rc := (candidateVotes s rc)(cid := candidateVotes s rc cid + 1))"
    and nv: "\<not> hasVoted s rc a"
    by blast+
  show "totalVotes s' rc = totalVotes s rc + 1"
    by (simp add: tv)
  show "candidateVotes s' rc cid = candidateVotes s rc cid + 1"
    by (simp add: cv)
  show "a \<notin> voters s rc"
    using nv by (simp add: voters_def)
  show "voters s' rc = insert a (voters s rc)"
    by (auto simp: voters_def hv)
  show "candidateVotes s' rc j = candidateVotes s rc j" if "j \<noteq> cid" for j
    using that by (simp add: cv)
  show "totalVotes s' r = totalVotes s r" and "candidateVotes s' r = candidateVotes s r"
    and "voters s' r = voters s r" if "r \<noteq> rc" for r
    using that by (simp_all add: voters_def hv tv cv)
qed

theorem C10_vote_accounting_witness:
  "totalVotes (run demo_env deployed (demo_txs @ [demo_vote1, demo_vote2])) ''R1''
     = (\<Sum>i<candidateCount (rooms (run demo_env deployed (demo_txs @ [demo_vote1, demo_vote2])) ''R1'').
          candidateVotes (run demo_env deployed (demo_txs @ [demo_vote1, demo_vote2])) ''R1'' i)
   \<and> totalVotes (run demo_env deployed (demo_txs @ [demo_vote1, demo_vote2])) ''R1''
     = card (voters (run demo_env deployed (demo_txs @ [demo_vote1, demo_vote2])) ''R1'')
   \<and> vote demo_env demo_voted1 2 40 ''R1'' 1 1 ''p'' = Inr demo_voted2
   \<and> totalVotes demo_voted2 ''R1'' = totalVotes demo_voted1 ''R1'' + 1
   \<and> candidateVotes demo_voted2 ''R1'' 1 = candidateVotes demo_voted1 ''R1'' 1 + 1
   \<and> candidateVotes demo_voted2 ''R1'' 0 = candidateVotes demo_voted1 ''R1'' 0
   \<and> voters demo_voted2 ''R1'' = insert 2 (voters demo_voted1 ''R1'')
   \<and> totalVotes demo_voted2 ''R1'' = 2
   \<and> totalVotes (apply_tx demo_env demo_voted2 (1, 50, EndRoom ''R1'')) = totalVotes demo_voted2"
proof -
  note g = C10_vote_accounting [of demo_env "demo_txs @ [demo_vote1, demo_vote2]" "''R1''"
      demo_voted1 2 40 1 1 "''p''" demo_voted2 "EndRoom ''R1''" 1]
  note v = g [THEN conjunct2, THEN conjunct2, THEN conjunct2, THEN conjunct1, THEN mp,
      OF demo_vote2_ok]
  have 1: "totalVotes (run demo_env deployed (demo_txs @ [demo_vote1, demo_vote2])) ''R1''
     = (\<Sum>i<candidateCount (rooms (run demo_env deployed (demo_txs @ [demo_vote1, demo_vote2])) ''R1'').
          candidateVotes (run demo_env deployed (demo_txs @ [demo_vote1, demo_vote2])) ''R1'' i)"
    using g by (rule conjunct1)
  have 2: "totalVotes (run demo_env deployed (demo_txs @ [demo_vote1, demo_vote2])) ''R1''
     = card (voters (run demo_env deployed (demo_txs @ [demo_vote1, demo_vote2])) ''R1'')"
    using g by blast
  have 3: "totalVotes demo_voted2 ''R1'' = totalVotes demo_voted1 ''R1'' + 1"
    and 4: "candidateVotes demo_voted2 ''R1'' 1 = candidateVotes demo_voted1 ''R1'' 1 + 1"
    and 6: "voters demo_voted2 ''R1'' = insert 2 (voters demo_voted1 ''R1'')"
    using v by blast+
  have "\<forall>j. j \<noteq> 1 \<longrightarrow> candidateVotes demo_voted2 ''R1'' j = candidateVotes demo_voted1 ''R1'' j"
    using v by blast
  then have 5: "candidateVotes demo_voted2 ''R1'' 0 = candidateVotes demo_voted1 ''R1'' 0"
    by simp
  have nv: "\<not> isVote (EndRoom ''R1'')"
    by simp
  have 7: "totalVotes (apply_tx demo_env demo_voted2 (1, 50, EndRoom ''R1'')) = totalVotes demo_voted2"
    using C10_vote_accounting [of demo_env "[]" "''R1''" demo_voted2 1 50 0 0 "[]" demo_voted2
        "EndRoom ''R1''" 1, THEN conjunct2, THEN conjunct2, THEN conjunct2, THEN conjunct2,
        THEN conjunct1, THEN mp, OF nv]
    by (rule conjunct1)
  from 1 2 demo_vote2_ok 3 4 5 6 demo_voted2_totalVotes 7 show ?thesis
    by blast
qed

end
